theory Spec2Isabelle
  imports Complex_Main "HOL-Library.Char_ord" "HOL-Library.List_Lexorder"
begin

section \<open>Data model\<close>

text \<open>
  Modelled from the spec: the models \<^verbatim>\<open>Tag\<close>, \<^verbatim>\<open>Ingredient\<close> and \<^verbatim>\<open>Recipe\<close>, which
  \<^verbatim>\<open>recipe/serializers.py\<close> imports from \<^verbatim>\<open>core.models\<close>, are not among the sources.
  Their fields follow section 3 of the specification and the fields the serializers and
  the tests name. A tag and an ingredient have the same shape: a primary key, the owning
  user and a name. Users are identified by their primary key.
\<close>

record entity =
  ent_id :: nat
  ent_user :: nat
  ent_name :: string

type_synonym tag = entity
type_synonym ingredient = entity

text \<open>
  A recipe row holds the scalar columns. The many-to-many relations \<^verbatim>\<open>recipe.tags\<close> and
  \<^verbatim>\<open>recipe.ingredients\<close> are rows of a link table, kept with the table of the related
  model: a pair \<open>(r, e)\<close> says that recipe \<open>r\<close> is associated with entity \<open>e\<close>.
\<close>

record recipe =
  recipe_id :: nat
  recipe_user :: nat
  title :: string
  time_minutes :: int
  price :: rat
  link :: "string option"
  description :: "string option"
  image :: "string option"

record table =
  rows :: "entity list"
  next_id :: nat
  links :: "(nat \<times> nat) set"

record store =
  tag_tbl :: table
  ingredient_tbl :: table
  recipe_rows :: "recipe list"
  next_recipe_id :: nat

datatype error = MultipleObjectsReturned | NotFound | Forbidden

text \<open>
  One entry of the validated \<^verbatim>\<open>tags\<close> or \<^verbatim>\<open>ingredients\<close> list: \<^verbatim>\<open>TagSerializer\<close> and
  \<^verbatim>\<open>IngredientSerializer\<close> declare the fields \<^verbatim>\<open>id\<close> (read only) and \<^verbatim>\<open>name\<close>, so
  a validated entry is the dictionary \<^verbatim>\<open>{"name": n}\<close>.
\<close>

record name_spec =
  spec_name :: string

section \<open>The object-relational operations the serializer calls\<close>

text \<open>
  \<^verbatim>\<open>Model.objects.get_or_create(user=u, name=n)\<close>: the rows matching the keyword
  arguments are looked up. No row: one is inserted under a fresh primary key and returned
  with \<^verbatim>\<open>created = True\<close>. One row: it is returned with \<^verbatim>\<open>created = False\<close>. More than
  one row: the lookup raises \<^verbatim>\<open>MultipleObjectsReturned\<close>. Several rows of one user can
  have the same name: section 3 of the specification states that the pair of owner and
  name is not a hard uniqueness constraint.
\<close>

definition matching :: "nat \<Rightarrow> string \<Rightarrow> table \<Rightarrow> entity list" where
  "matching u n tb = filter (\<lambda>e. ent_user e = u \<and> ent_name e = n) (rows tb)"

definition insert_row :: "nat \<Rightarrow> string \<Rightarrow> table \<Rightarrow> entity \<times> table" where
  "insert_row u n tb =
     (let e = \<lparr>ent_id = next_id tb, ent_user = u, ent_name = n\<rparr>
      in (e, tb\<lparr>rows := rows tb @ [e], next_id := Suc (next_id tb)\<rparr>))"

definition get_or_create :: "nat \<Rightarrow> string \<Rightarrow> table \<Rightarrow> error + (entity \<times> bool \<times> table)" where
  "get_or_create u n tb =
     (case matching u n tb of
        [] \<Rightarrow> (let (e, tb') = insert_row u n tb in Inr (e, True, tb'))
      | [e] \<Rightarrow> Inr (e, False, tb)
      | _ \<Rightarrow> Inl MultipleObjectsReturned)"

text \<open>
  \<^verbatim>\<open>instance.tags.add(obj)\<close> links the recipe with the entity unless the link is there
  already; \<^verbatim>\<open>instance.tags.clear()\<close> removes every link of the recipe.
\<close>

definition add :: "nat \<Rightarrow> entity \<Rightarrow> table \<Rightarrow> table" where
  "add rid e tb = tb\<lparr>links := insert (rid, ent_id e) (links tb)\<rparr>"

definition clear :: "nat \<Rightarrow> table \<Rightarrow> table" where
  "clear rid tb = tb\<lparr>links := Set.filter (\<lambda>p. fst p \<noteq> rid) (links tb)\<rparr>"

text \<open>\<^verbatim>\<open>instance.tags.all()\<close>: the rows of the related model linked with the recipe.\<close>

definition related :: "nat \<Rightarrow> table \<Rightarrow> entity list" where
  "related rid tb = filter (\<lambda>e. (rid, ent_id e) \<in> links tb) (rows tb)"

definition related_ids :: "nat \<Rightarrow> table \<Rightarrow> nat set" where
  "related_ids rid tb = snd ` Set.filter (\<lambda>p. fst p = rid) (links tb)"

text \<open>
  \<^verbatim>\<open>Recipe.objects.create(**validate_data)\<close> inserts a row under a fresh primary key;
  \<^verbatim>\<open>instance.save()\<close> writes the scalar columns of the instance to the row with its
  primary key, and inserts the row when no such row is there.
\<close>

definition save :: "recipe \<Rightarrow> store \<Rightarrow> store" where
  "save r s =
     (if list_ex (\<lambda>x. recipe_id x = recipe_id r) (recipe_rows s)
      then s\<lparr>recipe_rows := map (\<lambda>x. if recipe_id x = recipe_id r then r else x) (recipe_rows s)\<rparr>
      else s\<lparr>recipe_rows := recipe_rows s @ [r]\<rparr>)"

section \<open>RecipeSerializer\<close>

text \<open>
  The validated data of a create request. \<^verbatim>\<open>title\<close>, \<^verbatim>\<open>time_minutes\<close> and \<^verbatim>\<open>price\<close>
  are required; \<^verbatim>\<open>link\<close>, \<^verbatim>\<open>description\<close> (a field of \<^verbatim>\<open>RecipeDetailSerializer\<close>),
  \<^verbatim>\<open>tags\<close> and \<^verbatim>\<open>ingredients\<close> may be absent. The owner is attached by the caller.
\<close>

record create_data =
  cd_user :: nat
  cd_title :: string
  cd_time_minutes :: int
  cd_price :: rat
  cd_link :: "string option"
  cd_description :: "string option"
  cd_tags :: "name_spec list option"
  cd_ingredients :: "name_spec list option"

text \<open>
  The validated data of an update request: every key may be absent (a partial update),
  so every field is an optional slot. \<^verbatim>\<open>Meta.fields\<close> lists \<^verbatim>\<open>id\<close>, \<^verbatim>\<open>title\<close>,
  \<^verbatim>\<open>time_minutes\<close>, \<^verbatim>\<open>price\<close>, \<^verbatim>\<open>link\<close>, \<^verbatim>\<open>tags\<close>, \<^verbatim>\<open>ingredients\<close> (and
  \<^verbatim>\<open>description\<close> in the detail serializer), with \<^verbatim>\<open>id\<close> read only: these are the
  only keys validated data can hold.
\<close>

record update_data =
  ud_title :: "string option"
  ud_time_minutes :: "int option"
  ud_price :: "rat option"
  ud_link :: "string option"
  ud_description :: "string option"
  ud_tags :: "name_spec list option"
  ud_ingredients :: "name_spec list option"

text \<open>
  The request payload of an update may hold more keys than the serializer declares. The
  two that matter here are \<^verbatim>\<open>id\<close> (declared read only) and \<^verbatim>\<open>user\<close> (not in
  \<^verbatim>\<open>Meta.fields\<close>): the serializer keeps the declared writable fields and drops the rest.
\<close>

record update_payload =
  pl_id :: "nat option"
  pl_user :: "nat option"
  pl_fields :: update_data

definition validated_data :: "update_payload \<Rightarrow> update_data" where
  "validated_data pl = pl_fields pl"

text \<open>
  An exception raised by a lookup ends the call: \<open>get_or_create_tags\<close>,
  \<open>get_or_create_ingredients\<close>, \<open>create\<close> and \<open>update\<close> return the error and no
  store. What the database holds after a request that failed depends on whether the
  request runs in a transaction, which the serializer does not decide; the store that the
  loops themselves leave behind is given by their \<open>_run\<close> variants below.
\<close>

text \<open>\<^verbatim>\<open>_get_or_create_tags(self, instance, tags)\<close>, with \<open>auth_user\<close> the user of the request.\<close>

fun get_or_create_tags :: "nat \<Rightarrow> recipe \<Rightarrow> name_spec list \<Rightarrow> store \<Rightarrow> error + store" where
  "get_or_create_tags auth_user instance [] s = Inr s"
| "get_or_create_tags auth_user instance (tag # tags) s =
     (case get_or_create auth_user (spec_name tag) (tag_tbl s) of
        Inl e \<Rightarrow> Inl e
      | Inr (tag_obj, created, tb) \<Rightarrow>
          get_or_create_tags auth_user instance tags
            (s\<lparr>tag_tbl := add (recipe_id instance) tag_obj tb\<rparr>))"

text \<open>\<^verbatim>\<open>_get_or_create_ingredients(self, instance, ingredients)\<close>.\<close>

fun get_or_create_ingredients :: "nat \<Rightarrow> recipe \<Rightarrow> name_spec list \<Rightarrow> store \<Rightarrow> error + store" where
  "get_or_create_ingredients auth_user instance [] s = Inr s"
| "get_or_create_ingredients auth_user instance (ingredient # ingredients) s =
     (case get_or_create auth_user (spec_name ingredient) (ingredient_tbl s) of
        Inl e \<Rightarrow> Inl e
      | Inr (ing_obj, created, tb) \<Rightarrow>
          get_or_create_ingredients auth_user instance ingredients
            (s\<lparr>ingredient_tbl := add (recipe_id instance) ing_obj tb\<rparr>))"

text \<open>
  The same two loops with the store they leave behind on every path. The serializer
  opens no transaction: when a lookup raises, the rows and links that the earlier rounds
  wrote are in the store, and the lookup that raised has written nothing. The first
  component is the exception, if one was raised.
\<close>

fun get_or_create_tags_run :: "nat \<Rightarrow> recipe \<Rightarrow> name_spec list \<Rightarrow> store \<Rightarrow> error option \<times> store" where
  "get_or_create_tags_run auth_user instance [] s = (None, s)"
| "get_or_create_tags_run auth_user instance (tag # tags) s =
     (case get_or_create auth_user (spec_name tag) (tag_tbl s) of
        Inl e \<Rightarrow> (Some e, s)
      | Inr (tag_obj, created, tb) \<Rightarrow>
          get_or_create_tags_run auth_user instance tags
            (s\<lparr>tag_tbl := add (recipe_id instance) tag_obj tb\<rparr>))"

fun get_or_create_ingredients_run :: "nat \<Rightarrow> recipe \<Rightarrow> name_spec list \<Rightarrow> store \<Rightarrow> error option \<times> store" where
  "get_or_create_ingredients_run auth_user instance [] s = (None, s)"
| "get_or_create_ingredients_run auth_user instance (ingredient # ingredients) s =
     (case get_or_create auth_user (spec_name ingredient) (ingredient_tbl s) of
        Inl e \<Rightarrow> (Some e, s)
      | Inr (ing_obj, created, tb) \<Rightarrow>
          get_or_create_ingredients_run auth_user instance ingredients
            (s\<lparr>ingredient_tbl := add (recipe_id instance) ing_obj tb\<rparr>))"

text \<open>\<^verbatim>\<open>Recipe.objects.create(**validate_data)\<close>, after the two \<^verbatim>\<open>pop\<close>s.\<close>

definition objects_create :: "create_data \<Rightarrow> store \<Rightarrow> recipe \<times> store" where
  "objects_create d s =
     (let r = \<lparr>recipe_id = next_recipe_id s, recipe_user = cd_user d, title = cd_title d,
               time_minutes = cd_time_minutes d, price = cd_price d, link = cd_link d,
               description = cd_description d, image = None\<rparr>
      in (r, s\<lparr>recipe_rows := recipe_rows s @ [r], next_recipe_id := Suc (next_recipe_id s)\<rparr>))"

text \<open>\<^verbatim>\<open>create(self, validate_data)\<close>: an absent list is popped with the default \<^verbatim>\<open>[]\<close>.\<close>

definition create :: "nat \<Rightarrow> create_data \<Rightarrow> store \<Rightarrow> error + (recipe \<times> store)" where
  "create auth_user validate_data s =
     (let tags = (case cd_tags validate_data of None \<Rightarrow> [] | Some ts \<Rightarrow> ts);
          ingredients = (case cd_ingredients validate_data of None \<Rightarrow> [] | Some is \<Rightarrow> is);
          (recipe, s0) = objects_create validate_data s
      in case get_or_create_tags auth_user recipe tags s0 of
           Inl e \<Rightarrow> Inl e
         | Inr s1 \<Rightarrow>
             (case get_or_create_ingredients auth_user recipe ingredients s1 of
                Inl e \<Rightarrow> Inl e
              | Inr s2 \<Rightarrow> Inr (recipe, s2)))"

text \<open>
  The loop \<^verbatim>\<open>for attr, value in validate_data.items(): setattr(instance, attr, value)\<close>
  over the keys left after the two \<^verbatim>\<open>pop\<close>s: each scalar that is present is assigned.
\<close>

definition set_attrs :: "update_data \<Rightarrow> recipe \<Rightarrow> recipe" where
  "set_attrs d r =
     r\<lparr>title := (case ud_title d of None \<Rightarrow> title r | Some v \<Rightarrow> v),
       time_minutes := (case ud_time_minutes d of None \<Rightarrow> time_minutes r | Some v \<Rightarrow> v),
       price := (case ud_price d of None \<Rightarrow> price r | Some v \<Rightarrow> v),
       link := (case ud_link d of None \<Rightarrow> link r | Some v \<Rightarrow> Some v),
       description := (case ud_description d of None \<Rightarrow> description r | Some v \<Rightarrow> Some v)\<rparr>"

text \<open>
  \<^verbatim>\<open>update(self, instance, validate_data)\<close>: an absent list is popped as \<^verbatim>\<open>None\<close> and
  leaves the relation alone; a list that is present, empty or not, clears the relation
  and rebuilds it. The ingredients come first, then the tags, then the scalars.
\<close>

definition update :: "nat \<Rightarrow> recipe \<Rightarrow> update_data \<Rightarrow> store \<Rightarrow> error + (recipe \<times> store)" where
  "update auth_user instance validate_data s =
     (case (case ud_ingredients validate_data of
              None \<Rightarrow> Inr s
            | Some ingredients \<Rightarrow>
                get_or_create_ingredients auth_user instance ingredients
                  (s\<lparr>ingredient_tbl := clear (recipe_id instance) (ingredient_tbl s)\<rparr>)) of
        Inl e \<Rightarrow> Inl e
      | Inr s1 \<Rightarrow>
          (case (case ud_tags validate_data of
                   None \<Rightarrow> Inr s1
                 | Some tags \<Rightarrow>
                     get_or_create_tags auth_user instance tags
                       (s1\<lparr>tag_tbl := clear (recipe_id instance) (tag_tbl s1)\<rparr>)) of
             Inl e \<Rightarrow> Inl e
           | Inr s2 \<Rightarrow>
               (let instance' = set_attrs validate_data instance
                in Inr (instance', save instance' s2))))"

section \<open>Integrity of the store\<close>

text \<open>
  What the database guarantees of every table: primary keys are unique and below the
  counter the next key is drawn from, and a row of a link table refers to a recipe key
  that has been handed out.
\<close>

definition wf_rows :: "table \<Rightarrow> bool" where
  "wf_rows tb \<longleftrightarrow>
     distinct (map ent_id (rows tb)) \<and> (\<forall>e \<in> set (rows tb). ent_id e < next_id tb)"

definition wf_store :: "store \<Rightarrow> bool" where
  "wf_store s \<longleftrightarrow>
     wf_rows (tag_tbl s) \<and> wf_rows (ingredient_tbl s) \<and>
     (\<forall>p \<in> links (tag_tbl s). fst p < next_recipe_id s) \<and>
     (\<forall>p \<in> links (ingredient_tbl s). fst p < next_recipe_id s) \<and>
     distinct (map recipe_id (recipe_rows s)) \<and>
     (\<forall>r \<in> set (recipe_rows s). recipe_id r < next_recipe_id s)"

text \<open>
  A list of name entries can be resolved when none of its names matches more than one
  row of the owner.
\<close>

definition names :: "name_spec list \<Rightarrow> string set" where
  "names ds = spec_name ` set ds"

definition unambiguous :: "nat \<Rightarrow> name_spec list \<Rightarrow> table \<Rightarrow> bool" where
  "unambiguous u ds tb \<longleftrightarrow> (\<forall>n \<in> names ds. length (matching u n tb) \<le> 1)"

text \<open>The rows of an owner that a list of name entries names.\<close>

definition named :: "nat \<Rightarrow> name_spec list \<Rightarrow> table \<Rightarrow> entity set" where
  "named u ds tb = {e \<in> set (rows tb). ent_user e = u \<and> ent_name e \<in> names ds}"

section \<open>Query and filter layer\<close>

text \<open>
  Modelled from the spec: the views of the repository (\<^verbatim>\<open>recipe/views.py\<close>), which
  scope every query to the authenticated user, are not among the sources; only their
  tests are. The definitions of this section follow section 4.2 of the specification
  and the order the tests compare with (\<^verbatim>\<open>order_by("-name")\<close> for tags and
  ingredients).
\<close>

datatype kind = Recipe_kind | Tag_kind | Ingredient_kind

datatype item = Recipe_item recipe | Tag_item entity | Ingredient_item entity

fun item_id :: "item \<Rightarrow> nat" where
  "item_id (Recipe_item r) = recipe_id r"
| "item_id (Tag_item e) = ent_id e"
| "item_id (Ingredient_item e) = ent_id e"

fun item_owner :: "item \<Rightarrow> nat" where
  "item_owner (Recipe_item r) = recipe_user r"
| "item_owner (Tag_item e) = ent_user e"
| "item_owner (Ingredient_item e) = ent_user e"

text \<open>Modelled from the spec: every stored entity of a kind, in table order.\<close>

fun items :: "kind \<Rightarrow> store \<Rightarrow> item list" where
  "items Recipe_kind s = map Recipe_item (recipe_rows s)"
| "items Tag_kind s = map Tag_item (rows (tag_tbl s))"
| "items Ingredient_kind s = map Ingredient_item (rows (ingredient_tbl s))"

text \<open>
  Modelled from the spec: \<^verbatim>\<open>get_owned(entity_kind, owner, id)\<close> returns the entity if it
  exists and its owner is the requesting owner, and signals \<^verbatim>\<open>NotFound\<close> otherwise.
\<close>

definition get_owned :: "kind \<Rightarrow> nat \<Rightarrow> nat \<Rightarrow> store \<Rightarrow> error + item" where
  "get_owned k owner i s =
     (case find (\<lambda>x. item_id x = i) (items k s) of
        None \<Rightarrow> Inl NotFound
      | Some x \<Rightarrow> if item_owner x = owner then Inr x else Inl NotFound)"

text \<open>
  Modelled from the spec: \<^verbatim>\<open>delete(kind, id)\<close> of the entity store removes the row;
  the associations of a deleted entity drop with it.
\<close>

definition unlink_entity :: "nat \<Rightarrow> table \<Rightarrow> table" where
  "unlink_entity i tb =
     tb\<lparr>rows := filter (\<lambda>e. ent_id e \<noteq> i) (rows tb),
        links := Set.filter (\<lambda>p. snd p \<noteq> i) (links tb)\<rparr>"

fun delete :: "kind \<Rightarrow> nat \<Rightarrow> store \<Rightarrow> store" where
  "delete Recipe_kind i s =
     s\<lparr>recipe_rows := filter (\<lambda>r. recipe_id r \<noteq> i) (recipe_rows s),
       tag_tbl := clear i (tag_tbl s),
       ingredient_tbl := clear i (ingredient_tbl s)\<rparr>"
| "delete Tag_kind i s = s\<lparr>tag_tbl := unlink_entity i (tag_tbl s)\<rparr>"
| "delete Ingredient_kind i s = s\<lparr>ingredient_tbl := unlink_entity i (ingredient_tbl s)\<rparr>"

text \<open>
  Modelled from the spec: the requests that reach an entity by its id. Each one looks
  the entity up with \<open>get_owned\<close> first, and answers with the store it leaves behind.
  A request that fails leaves the store as it found it (section 5 of the specification
  takes a request to be atomic).
\<close>

definition retrieve_request :: "kind \<Rightarrow> nat \<Rightarrow> nat \<Rightarrow> store \<Rightarrow> (error + item) \<times> store" where
  "retrieve_request k owner i s = (get_owned k owner i s, s)"

definition delete_request :: "kind \<Rightarrow> nat \<Rightarrow> nat \<Rightarrow> store \<Rightarrow> (error + unit) \<times> store" where
  "delete_request k owner i s =
     (case get_owned k owner i s of
        Inl e \<Rightarrow> (Inl e, s)
      | Inr x \<Rightarrow> (Inr (), delete k i s))"

definition update_request :: "nat \<Rightarrow> nat \<Rightarrow> update_payload \<Rightarrow> store \<Rightarrow> (error + recipe) \<times> store" where
  "update_request owner i pl s =
     (case get_owned Recipe_kind owner i s of
        Inl e \<Rightarrow> (Inl e, s)
      | Inr (Recipe_item instance) \<Rightarrow>
          (case update owner instance (validated_data pl) s of
             Inl e \<Rightarrow> (Inl e, s)
           | Inr (r, s') \<Rightarrow> (Inr r, s'))
      | Inr _ \<Rightarrow> (Inl NotFound, s))"

text \<open>
  Modelled from the spec: \<^verbatim>\<open>list(entity_kind, owner, assigned_only)\<close> for tags and
  ingredients. With \<^verbatim>\<open>assigned_only\<close> the table is joined with the recipes through the
  link table, which yields one copy of an entity for each recipe that refers to it; the
  result is scoped to the owner, ordered by name, descending, and de-duplicated. Rows of
  equal name are taken in table order (the sort is stable); the specification leaves the
  order to the implementation.
\<close>

definition assigned :: "table \<Rightarrow> recipe list \<Rightarrow> entity list" where
  "assigned tb recipes =
     concat (map (\<lambda>e. map (\<lambda>r. e) (filter (\<lambda>r. (recipe_id r, ent_id e) \<in> links tb) recipes)) (rows tb))"

definition list_entities :: "nat \<Rightarrow> bool \<Rightarrow> table \<Rightarrow> recipe list \<Rightarrow> entity list" where
  "list_entities owner assigned_only tb recipes =
     remdups (rev (sort_key ent_name (rev
       (filter (\<lambda>e. ent_user e = owner) (if assigned_only then assigned tb recipes else rows tb)))))"

text \<open>An entity is referenced when some recipe row is linked with it.\<close>

definition referenced :: "table \<Rightarrow> recipe list \<Rightarrow> entity \<Rightarrow> bool" where
  "referenced tb recipes e \<longleftrightarrow> list_ex (\<lambda>r. (recipe_id r, ent_id e) \<in> links tb) recipes"

section \<open>The loop of the serializer, table by table\<close>

text \<open>
  \<open>get_or_create_tags\<close> and \<open>get_or_create_ingredients\<close> run the same loop, each on
  its own table. \<open>link_all\<close> is that loop on one table, \<open>link_all_run\<close> the loop with
  the table it leaves behind on every path; \<open>sync\<close> is what \<open>update\<close> does with one
  relation.
\<close>

fun link_all :: "nat \<Rightarrow> nat \<Rightarrow> name_spec list \<Rightarrow> table \<Rightarrow> error + table" where
  "link_all u rid [] tb = Inr tb"
| "link_all u rid (d # ds) tb =
     (case get_or_create u (spec_name d) tb of
        Inl e \<Rightarrow> Inl e
      | Inr (e, created, tb1) \<Rightarrow> link_all u rid ds (add rid e tb1))"

fun link_all_run :: "nat \<Rightarrow> nat \<Rightarrow> name_spec list \<Rightarrow> table \<Rightarrow> error option \<times> table" where
  "link_all_run u rid [] tb = (None, tb)"
| "link_all_run u rid (d # ds) tb =
     (case get_or_create u (spec_name d) tb of
        Inl e \<Rightarrow> (Some e, tb)
      | Inr (e, created, tb1) \<Rightarrow> link_all_run u rid ds (add rid e tb1))"

definition sync :: "nat \<Rightarrow> nat \<Rightarrow> name_spec list option \<Rightarrow> table \<Rightarrow> error + table" where
  "sync u rid specs tb =
     (case specs of None \<Rightarrow> Inr tb | Some ds \<Rightarrow> link_all u rid ds (clear rid tb))"

section \<open>Sample data\<close>

text \<open>
  A store in the style of the tests: user 1 owns the tags Indian and Breakfast, an
  ingredient and a recipe that carries Breakfast; user 2 owns a tag Indian of their own.
\<close>

definition sample_tags :: table where
  "sample_tags =
     \<lparr>rows = [\<lparr>ent_id = 0, ent_user = 1, ent_name = ''Indian''\<rparr>,
              \<lparr>ent_id = 1, ent_user = 1, ent_name = ''Breakfast''\<rparr>,
              \<lparr>ent_id = 2, ent_user = 2, ent_name = ''Indian''\<rparr>],
      next_id = 3, links = {(0, 1)}\<rparr>"

definition sample_ingredients :: table where
  "sample_ingredients =
     \<lparr>rows = [\<lparr>ent_id = 0, ent_user = 1, ent_name = ''ingredientName''\<rparr>],
      next_id = 1, links = {(0, 0)}\<rparr>"

definition sample_recipe :: recipe where
  "sample_recipe =
     \<lparr>recipe_id = 0, recipe_user = 1, title = ''Sample recipe title'', time_minutes = 22,
      price = 21 / 4, link = Some ''http://example.com/recipe.pdf'',
      description = Some ''Sample description'', image = None\<rparr>"

definition sample_store :: store where
  "sample_store =
     \<lparr>tag_tbl = sample_tags, ingredient_tbl = sample_ingredients,
      recipe_rows = [sample_recipe], next_recipe_id = 1\<rparr>"

text \<open>A tag table in which user 1 has two rows named Indian.\<close>

definition twice_tags :: table where
  "twice_tags =
     \<lparr>rows = [\<lparr>ent_id = 0, ent_user = 1, ent_name = ''Indian''\<rparr>,
              \<lparr>ent_id = 1, ent_user = 1, ent_name = ''Indian''\<rparr>],
      next_id = 2, links = {}\<rparr>"

text \<open>
  A partial update in the style of the tests: a new title, the tags Indian, Dinner and
  Indian again, and an empty list of ingredients; and what it makes of the sample store.
\<close>

definition sample_update :: update_data where
  "sample_update =
     \<lparr>ud_title = Some ''New recipe title'', ud_time_minutes = None, ud_price = None,
      ud_link = None, ud_description = None,
      ud_tags = Some [\<lparr>spec_name = ''Indian''\<rparr>, \<lparr>spec_name = ''Dinner''\<rparr>,
                      \<lparr>spec_name = ''Indian''\<rparr>],
      ud_ingredients = Some []\<rparr>"

definition updated_recipe :: recipe where
  "updated_recipe = sample_recipe\<lparr>title := ''New recipe title''\<rparr>"

definition updated_store :: store where
  "updated_store =
     \<lparr>tag_tbl =
        \<lparr>rows = [\<lparr>ent_id = 0, ent_user = 1, ent_name = ''Indian''\<rparr>,
                 \<lparr>ent_id = 1, ent_user = 1, ent_name = ''Breakfast''\<rparr>,
                 \<lparr>ent_id = 2, ent_user = 2, ent_name = ''Indian''\<rparr>,
                 \<lparr>ent_id = 3, ent_user = 1, ent_name = ''Dinner''\<rparr>],
         next_id = 4, links = {(0, 0), (0, 3)}\<rparr>,
      ingredient_tbl = sample_ingredients\<lparr>links := {}\<rparr>,
      recipe_rows = [updated_recipe], next_recipe_id = 1\<rparr>"

text \<open>A payload that tries to hand the recipe to user 2.\<close>

definition sample_payload :: update_payload where
  "sample_payload = \<lparr>pl_id = None, pl_user = Some 2, pl_fields = sample_update\<rparr>"

text \<open>The validated data of a create request with the tags Thai, Dinner and Thai again.\<close>

definition sample_create :: create_data where
  "sample_create =
     \<lparr>cd_user = 1, cd_title = ''Thai Prawn Curry'', cd_time_minutes = 30, cd_price = 21 / 5,
      cd_link = None, cd_description = None,
      cd_tags = Some [\<lparr>spec_name = ''Thai''\<rparr>, \<lparr>spec_name = ''Dinner''\<rparr>,
                      \<lparr>spec_name = ''Thai''\<rparr>],
      cd_ingredients = None\<rparr>"

text \<open>
  A store for the listings: user 1 owns the tags tag1 and tag2 and two recipes, both of
  which carry tag1; nothing carries tag2.
\<close>

definition listing_store :: store where
  "listing_store =
     \<lparr>tag_tbl =
        \<lparr>rows = [\<lparr>ent_id = 0, ent_user = 1, ent_name = ''tag1''\<rparr>,
                 \<lparr>ent_id = 1, ent_user = 1, ent_name = ''tag2''\<rparr>],
         next_id = 2, links = {(0, 0), (1, 0)}\<rparr>,
      ingredient_tbl = \<lparr>rows = [], next_id = 0, links = {}\<rparr>,
      recipe_rows = [sample_recipe\<lparr>title := ''r1''\<rparr>,
                     sample_recipe\<lparr>recipe_id := 1, title := ''r2''\<rparr>],
      next_recipe_id = 2\<rparr>"

text \<open>What the sample create request makes of the sample store.\<close>

definition created_recipe :: recipe where
  "created_recipe =
     \<lparr>recipe_id = 1, recipe_user = 1, title = ''Thai Prawn Curry'', time_minutes = 30,
      price = 21 / 5, link = None, description = None, image = None\<rparr>"

definition created_store :: store where
  "created_store =
     \<lparr>tag_tbl =
        \<lparr>rows = [\<lparr>ent_id = 0, ent_user = 1, ent_name = ''Indian''\<rparr>,
                 \<lparr>ent_id = 1, ent_user = 1, ent_name = ''Breakfast''\<rparr>,
                 \<lparr>ent_id = 2, ent_user = 2, ent_name = ''Indian''\<rparr>,
                 \<lparr>ent_id = 3, ent_user = 1, ent_name = ''Thai''\<rparr>,
                 \<lparr>ent_id = 4, ent_user = 1, ent_name = ''Dinner''\<rparr>],
         next_id = 5, links = {(0, 1), (1, 3), (1, 4)}\<rparr>,
      ingredient_tbl = sample_ingredients,
      recipe_rows = [sample_recipe, created_recipe], next_recipe_id = 2\<rparr>"

text \<open>
  The sample store with the tag table in which user 1 has Indian twice, and what the
  loop over Dinner and Indian leaves of it: Dinner is created, then the lookup of Indian
  raises.
\<close>

definition twice_store :: store where
  "twice_store = sample_store\<lparr>tag_tbl := twice_tags\<rparr>"

definition twice_store_after :: store where
  "twice_store_after =
     sample_store\<lparr>tag_tbl :=
       \<lparr>rows = [\<lparr>ent_id = 0, ent_user = 1, ent_name = ''Indian''\<rparr>,
                \<lparr>ent_id = 1, ent_user = 1, ent_name = ''Indian''\<rparr>,
                \<lparr>ent_id = 2, ent_user = 1, ent_name = ''Dinner''\<rparr>],
        next_id = 3, links = {(0, 2)}\<rparr>\<rparr>"

section \<open>Lemmas about the operations\<close>

subsection \<open>The two loops are one loop, each on its table\<close>

lemma tags_link_all:
  "get_or_create_tags u i ds s =
     (case link_all u (recipe_id i) ds (tag_tbl s) of Inl e \<Rightarrow> Inl e | Inr tb \<Rightarrow> Inr (s\<lparr>tag_tbl := tb\<rparr>))"
  by (induction ds arbitrary: s) (auto split: sum.splits prod.splits)

lemma ingredients_link_all:
  "get_or_create_ingredients u i ds s =
     (case link_all u (recipe_id i) ds (ingredient_tbl s) of Inl e \<Rightarrow> Inl e | Inr tb \<Rightarrow> Inr (s\<lparr>ingredient_tbl := tb\<rparr>))"
  by (induction ds arbitrary: s) (auto split: sum.splits prod.splits)

subsection \<open>Looking names up and linking the rows\<close>

text \<open>
  A lookup that returns leaves exactly one row under the name, and touches no other name
  and no link. So the loop, when it returns, leaves one row under each listed name and
  has linked the recipe with exactly these rows; it returns if no listed name matches
  several rows, and raises only \<^verbatim>\<open>MultipleObjectsReturned\<close>, only on such a name.
\<close>

lemma set_matching: "set (matching u n tb) = {e \<in> set (rows tb). ent_user e = u \<and> ent_name e = n}"
  by (auto simp: matching_def)

lemma matching_add [simp]: "matching u n (add rid e tb) = matching u n tb"
  by (simp add: matching_def add_def)

lemma matching_clear [simp]: "matching u n (clear rid tb) = matching u n tb"
  by (simp add: matching_def clear_def)

lemma get_or_create_Inr:
  assumes "get_or_create u n tb = Inr (e, c, tb1)"
  shows "matching u n tb1 = [e]"
    and "links tb1 = links tb"
    and "matching u n tb \<noteq> [] \<Longrightarrow> tb1 = tb"
    and "u' \<noteq> u \<or> m \<noteq> n \<Longrightarrow> matching u' m tb1 = matching u' m tb"
    and "set (rows tb) \<subseteq> set (rows tb1)"
  using assms
  by (auto simp: get_or_create_def insert_row_def matching_def Let_def
           split: list.splits if_splits)

lemma get_or_create_stable:
  assumes "get_or_create u n tb = Inr (e, c, tb1)" "matching u' m tb \<noteq> []"
  shows "matching u' m tb1 = matching u' m tb"
  using assms get_or_create_Inr(3,4)[OF assms(1)] by (cases "u' = u \<and> m = n") auto

lemma link_all_stable:
  "link_all u rid ds tb = Inr tb' \<Longrightarrow> matching u' m tb \<noteq> [] \<Longrightarrow> matching u' m tb' = matching u' m tb"
proof (induction ds arbitrary: tb)
  case Nil
  then show ?case by simp
next
  case (Cons d ds)
  from Cons.prems(1) obtain e c tb1 where
    g: "get_or_create u (spec_name d) tb = Inr (e, c, tb1)"
    and l: "link_all u rid ds (add rid e tb1) = Inr tb'"
    by (auto split: sum.splits)
  have "matching u' m tb1 = matching u' m tb"
    using get_or_create_stable[OF g Cons.prems(2)] .
  with Cons.IH[OF l] Cons.prems(2) show ?case by simp
qed

lemma link_all_unique:
  "link_all u rid ds tb = Inr tb' \<Longrightarrow> n \<in> names ds \<Longrightarrow> length (matching u n tb') = 1"
proof (induction ds arbitrary: tb)
  case Nil
  then show ?case by (simp add: names_def)
next
  case (Cons d ds)
  from Cons.prems(1) obtain e c tb1 where
    g: "get_or_create u (spec_name d) tb = Inr (e, c, tb1)"
    and l: "link_all u rid ds (add rid e tb1) = Inr tb'"
    by (auto split: sum.splits)
  show ?case
  proof (cases "n \<in> names ds")
    case True
    with Cons.IH[OF l] show ?thesis by simp
  next
    case False
    with Cons.prems(2) have n: "n = spec_name d" by (simp add: names_def)
    have "matching u n (add rid e tb1) = [e]"
      using get_or_create_Inr(1)[OF g] n by simp
    with link_all_stable[OF l, of u n] show ?thesis by simp
  qed
qed

lemma link_all_links:
  "link_all u rid ds tb = Inr tb' \<Longrightarrow>
     links tb' = links tb \<union> (\<lambda>e. (rid, ent_id e)) ` named u ds tb'"
proof (induction ds arbitrary: tb)
  case Nil
  then show ?case by (simp add: named_def names_def)
next
  case (Cons d ds)
  from Cons.prems(1) obtain e c tb1 where
    g: "get_or_create u (spec_name d) tb = Inr (e, c, tb1)"
    and l: "link_all u rid ds (add rid e tb1) = Inr tb'"
    by (auto split: sum.splits)
  have "matching u (spec_name d) (add rid e tb1) = [e]"
    using get_or_create_Inr(1)[OF g] by simp
  with link_all_stable[OF l, of u "spec_name d"]
  have "matching u (spec_name d) tb' = [e]" by simp
  then have "set (matching u (spec_name d) tb') = {e}" by simp
  then have e: "{x \<in> set (rows tb'). ent_user x = u \<and> ent_name x = spec_name d} = {e}"
    by (simp add: set_matching)
  have "named u (d # ds) tb' = {x \<in> set (rows tb'). ent_user x = u \<and> ent_name x = spec_name d} \<union> named u ds tb'"
    by (auto simp: named_def names_def)
  then have n: "named u (d # ds) tb' = insert e (named u ds tb')" using e by simp
  have "links tb' = links (add rid e tb1) \<union> (\<lambda>e. (rid, ent_id e)) ` named u ds tb'"
    using Cons.IH[OF l] .
  also have "links (add rid e tb1) = insert (rid, ent_id e) (links tb)"
    using get_or_create_Inr(2)[OF g] by (simp add: add_def)
  finally show ?case using n by auto
qed

lemma named_add [simp]: "named u ds (add rid e tb) = named u ds tb"
  by (simp add: named_def add_def)

lemma named_clear [simp]: "named u ds (clear rid tb) = named u ds tb"
  by (simp add: named_def clear_def)

lemma named_Cons:
  "named u (d # ds) tb = set (matching u (spec_name d) tb) \<union> named u ds tb"
  by (auto simp: named_def names_def set_matching)

lemma link_all_found:
  "(\<And>n. n \<in> names ds \<Longrightarrow> length (matching u n tb) = 1) \<Longrightarrow>
     link_all u rid ds tb = Inr (tb\<lparr>links := links tb \<union> (\<lambda>e. (rid, ent_id e)) ` named u ds tb\<rparr>)"
proof (induction ds arbitrary: tb)
  case Nil
  then show ?case by (simp add: named_def names_def)
next
  case (Cons d ds)
  have "length (matching u (spec_name d) tb) = 1"
    using Cons.prems by (simp add: names_def)
  then obtain e where e: "matching u (spec_name d) tb = [e]"
    by (cases "matching u (spec_name d) tb") auto
  then have g: "get_or_create u (spec_name d) tb = Inr (e, False, tb)"
    by (simp add: get_or_create_def)
  have "\<And>n. n \<in> names ds \<Longrightarrow> length (matching u n (add rid e tb)) = 1"
    using Cons.prems by (simp add: names_def)
  from Cons.IH[OF this]
  have "link_all u rid ds (add rid e tb) =
          Inr ((add rid e tb)\<lparr>links := links (add rid e tb) \<union> (\<lambda>e. (rid, ent_id e)) ` named u ds tb\<rparr>)"
    by simp
  moreover have "insert (rid, ent_id e) (links tb) \<union> (\<lambda>e. (rid, ent_id e)) ` named u ds tb
       = links tb \<union> (\<lambda>e. (rid, ent_id e)) ` named u (d # ds) tb"
    using e by (auto simp: named_Cons)
  ultimately show ?case using g by (simp add: add_def)
qed

lemma link_all_total:
  "(\<And>n. n \<in> names ds \<Longrightarrow> length (matching u n tb) \<le> 1) \<Longrightarrow> \<exists>tb'. link_all u rid ds tb = Inr tb'"
proof (induction ds arbitrary: tb)
  case Nil
  then show ?case by simp
next
  case (Cons d ds)
  have "length (matching u (spec_name d) tb) \<le> 1"
    using Cons.prems by (simp add: names_def)
  then obtain e c tb1 where g: "get_or_create u (spec_name d) tb = Inr (e, c, tb1)"
    by (cases "matching u (spec_name d) tb" rule: list.exhaust)
       (auto simp: get_or_create_def insert_row_def Let_def split: list.splits)
  have "\<And>n. n \<in> names ds \<Longrightarrow> length (matching u n (add rid e tb1)) \<le> 1"
  proof -
    fix n assume n: "n \<in> names ds"
    show "length (matching u n (add rid e tb1)) \<le> 1"
    proof (cases "n = spec_name d")
      case True
      then show ?thesis using get_or_create_Inr(1)[OF g] by simp
    next
      case False
      then have "matching u n tb1 = matching u n tb"
        using get_or_create_Inr(4)[OF g, of u n] by simp
      then show ?thesis using Cons.prems[of n] n by (simp add: names_def)
    qed
  qed
  from Cons.IH[OF this] show ?case using g by simp
qed

lemma link_all_raises:
  "link_all u rid ds tb = Inl err \<Longrightarrow> err = MultipleObjectsReturned \<and> (\<exists>n \<in> names ds. 1 < length (matching u n tb))"
proof (induction ds arbitrary: tb)
  case Nil
  then show ?case by simp
next
  case (Cons d ds)
  show ?case
  proof (cases "get_or_create u (spec_name d) tb")
    case (Inl x)
    then have "x = MultipleObjectsReturned \<and> 1 < length (matching u (spec_name d) tb)"
      by (auto simp: get_or_create_def insert_row_def Let_def split: list.splits)
    with Inl Cons.prems show ?thesis by (auto simp: names_def)
  next
    case (Inr y)
    then obtain e c tb1 where g: "get_or_create u (spec_name d) tb = Inr (e, c, tb1)"
      by (cases y) auto
    with Cons.prems have l: "link_all u rid ds (add rid e tb1) = Inl err" by simp
    from Cons.IH[OF l] obtain n where e: "err = MultipleObjectsReturned"
      and n: "n \<in> names ds" "1 < length (matching u n (add rid e tb1))" by auto
    have "matching u n tb1 = matching u n tb"
    proof (cases "n = spec_name d")
      case True
      then show ?thesis using n(2) get_or_create_Inr(1)[OF g] by simp
    next
      case False
      then show ?thesis using get_or_create_Inr(4)[OF g, of u n] by simp
    qed
    with n e show ?thesis by (auto simp: names_def)
  qed
qed

subsection \<open>Doing one relation again\<close>

lemma clear_links_union:
  "Set.filter (\<lambda>p. fst p \<noteq> rid) (Set.filter (\<lambda>p. fst p \<noteq> rid) L \<union> (\<lambda>e. (rid, f e)) ` A)
     = Set.filter (\<lambda>p. fst p \<noteq> rid) L"
  by auto

lemma clear_links_upd: "(clear rid tb)\<lparr>links := L\<rparr> = tb\<lparr>links := L\<rparr>"
  by (simp add: clear_def)

lemma sync_idem:
  assumes "sync u rid specs tb = Inr tb1"
  shows "sync u rid specs tb1 = Inr tb1"
proof (cases specs)
  case None
  then show ?thesis by (simp add: sync_def)
next
  case (Some ds)
  with assms have l: "link_all u rid ds (clear rid tb) = Inr tb1" by (simp add: sync_def)
  have u1: "\<And>n. n \<in> names ds \<Longrightarrow> length (matching u n (clear rid tb1)) = 1"
    using link_all_unique[OF l] by simp
  have lk: "links tb1 = links (clear rid tb) \<union> (\<lambda>e. (rid, ent_id e)) ` named u ds tb1"
    using link_all_links[OF l] .
  have a: "links (clear rid tb1) = Set.filter (\<lambda>p. fst p \<noteq> rid) (links tb1)"
    by (simp add: clear_def)
  have b: "links (clear rid tb) = Set.filter (\<lambda>p. fst p \<noteq> rid) (links tb)"
    by (simp add: clear_def)
  have "links (clear rid tb1) = Set.filter (\<lambda>p. fst p \<noteq> rid) (links tb)"
    unfolding a lk b by (rule clear_links_union)
  then have "links (clear rid tb1) \<union> (\<lambda>e. (rid, ent_id e)) ` named u ds (clear rid tb1) = links tb1"
    using lk b by simp
  then have "(clear rid tb1)\<lparr>links := links (clear rid tb1) \<union> (\<lambda>e. (rid, ent_id e)) ` named u ds (clear rid tb1)\<rparr> = tb1"
    by (simp add: clear_links_upd)
  with link_all_found[of ds u "clear rid tb1" rid, OF u1] Some show ?thesis
    by (simp add: sync_def)
qed

subsection \<open>Saving and assigning\<close>

lemma save_idem: "save r (save r s) = save r s"
proof (cases "list_ex (\<lambda>x. recipe_id x = recipe_id r) (recipe_rows s)")
  case True
  then have "list_ex (\<lambda>x. recipe_id x = recipe_id r) (map (\<lambda>x. if recipe_id x = recipe_id r then r else x) (recipe_rows s))"
    by (auto simp: list_ex_iff)
  moreover have "map (\<lambda>x. if recipe_id x = recipe_id r then r else x) (map (\<lambda>x. if recipe_id x = recipe_id r then r else x) (recipe_rows s))
     = map (\<lambda>x. if recipe_id x = recipe_id r then r else x) (recipe_rows s)"
    by (induction "recipe_rows s") auto
  ultimately show ?thesis using True by (simp add: save_def)
next
  case False
  then have "map (\<lambda>x. if recipe_id x = recipe_id r then r else x) (recipe_rows s) = recipe_rows s"
    by (auto simp: list_ex_iff intro: map_idI)
  with False show ?thesis by (simp add: save_def)
qed

lemma save_upd:
  "(save r s)\<lparr>ingredient_tbl := a\<rparr> = save r (s\<lparr>ingredient_tbl := a\<rparr>)"
  "(save r s)\<lparr>tag_tbl := b\<rparr> = save r (s\<lparr>tag_tbl := b\<rparr>)"
  by (simp_all add: save_def)

lemma set_attrs_idem: "set_attrs d (set_attrs d r) = set_attrs d r"
  by (simp add: set_attrs_def split: option.splits)

lemma set_attrs_id [simp]: "recipe_id (set_attrs d r) = recipe_id r"
  by (simp add: set_attrs_def)

lemma set_attrs_user [simp]: "recipe_user (set_attrs d r) = recipe_user r"
  by (simp add: set_attrs_def)

lemma update_sync:
  "update u i d s =
     (case sync u (recipe_id i) (ud_ingredients d) (ingredient_tbl s) of
        Inl e \<Rightarrow> Inl e
      | Inr itb \<Rightarrow>
          (case sync u (recipe_id i) (ud_tags d) (tag_tbl s) of
             Inl e \<Rightarrow> Inl e
           | Inr ttb \<Rightarrow>
               Inr (set_attrs d i, save (set_attrs d i) (s\<lparr>ingredient_tbl := itb, tag_tbl := ttb\<rparr>))))"
  by (auto simp: update_def sync_def tags_link_all ingredients_link_all Let_def
           split: option.splits sum.splits)

lemma save_tbl [simp]:
  "tag_tbl (save r s) = tag_tbl s" "ingredient_tbl (save r s) = ingredient_tbl s"
  "next_recipe_id (save r s) = next_recipe_id s"
  by (simp_all add: save_def)

lemma update_idem:
  assumes "update u i d s = Inr (r1, s1)"
  shows "update u r1 d s1 = Inr (r1, s1)"
proof -
  from assms obtain itb ttb where
    i: "sync u (recipe_id i) (ud_ingredients d) (ingredient_tbl s) = Inr itb"
    and t: "sync u (recipe_id i) (ud_tags d) (tag_tbl s) = Inr ttb"
    and r1: "r1 = set_attrs d i"
    and s1: "s1 = save r1 (s\<lparr>ingredient_tbl := itb, tag_tbl := ttb\<rparr>)"
    by (auto simp: update_sync split: sum.splits)
  have id: "recipe_id r1 = recipe_id i" by (simp add: r1)
  have tb: "ingredient_tbl s1 = itb" "tag_tbl s1 = ttb" by (simp_all add: s1)
  have e1: "s1\<lparr>ingredient_tbl := itb, tag_tbl := ttb\<rparr> = s1"
    by (simp add: s1 save_upd)
  have e2: "set_attrs d r1 = r1" by (simp add: r1 set_attrs_idem)
  have e3: "save r1 s1 = s1" by (simp add: s1 save_idem)
  have "update u r1 d s1 =
          Inr (set_attrs d r1, save (set_attrs d r1) (s1\<lparr>ingredient_tbl := itb, tag_tbl := ttb\<rparr>))"
    using sync_idem[OF i] sync_idem[OF t] by (simp add: update_sync id tb)
  then show ?thesis by (simp only: e1 e2 e3)
qed

subsection \<open>One relation of an update\<close>

lemma related_ids_iff: "x \<in> related_ids rid tb \<longleftrightarrow> (rid, x) \<in> links tb"
  by (force simp: related_ids_def)

lemma related_ids_clear [simp]: "related_ids rid (clear rid tb) = {}"
  by (auto simp: related_ids_iff clear_def)

lemma sync_Some_links:
  assumes "sync u rid (Some ds) tb = Inr tb'"
  shows "related_ids rid tb' = ent_id ` named u ds tb'"
proof -
  from assms have l: "link_all u rid ds (clear rid tb) = Inr tb'" by (simp add: sync_def)
  have "links tb' = links (clear rid tb) \<union> (\<lambda>e. (rid, ent_id e)) ` named u ds tb'"
    using link_all_links[OF l] .
  then have "\<And>x. (rid, x) \<in> links tb' \<longleftrightarrow> x \<in> ent_id ` named u ds tb'"
    by (auto simp: clear_def)
  then show ?thesis by (auto simp: related_ids_iff)
qed

lemma sync_Some_unique:
  assumes "sync u rid (Some ds) tb = Inr tb'" "n \<in> names ds"
  shows "\<exists>e. matching u n tb' = [e]"
proof -
  from assms have l: "link_all u rid ds (clear rid tb) = Inr tb'" by (simp add: sync_def)
  from link_all_unique[OF l assms(2)] show ?thesis
    by (cases "matching u n tb'") auto
qed

lemma sync_total:
  assumes "\<And>ds. specs = Some ds \<Longrightarrow> unambiguous u ds tb"
  shows "\<exists>tb'. sync u rid specs tb = Inr tb'"
proof (cases specs)
  case None
  then show ?thesis by (simp add: sync_def)
next
  case (Some ds)
  with assms have "\<And>n. n \<in> names ds \<Longrightarrow> length (matching u n (clear rid tb)) \<le> 1"
    by (simp add: unambiguous_def)
  from link_all_total[OF this] Some show ?thesis by (simp add: sync_def)
qed

lemma update_Inr:
  assumes "update u i d s = Inr (r', s')"
  obtains itb ttb where
    "sync u (recipe_id i) (ud_ingredients d) (ingredient_tbl s) = Inr itb"
    "sync u (recipe_id i) (ud_tags d) (tag_tbl s) = Inr ttb"
    "r' = set_attrs d i"
    "s' = save r' (s\<lparr>ingredient_tbl := itb, tag_tbl := ttb\<rparr>)"
  using assms by (auto simp: update_sync split: sum.splits)

lemma sync_policy:
  assumes "sync u rid specs tb = Inr tb'"
  shows "(specs = None \<longrightarrow> tb' = tb) \<and>
         (specs = Some [] \<longrightarrow> related_ids rid tb' = {}) \<and>
         (\<forall>ds. specs = Some ds \<longrightarrow>
            related_ids rid tb' = ent_id ` named u ds tb' \<and>
            (\<forall>n \<in> names ds. \<exists>e. matching u n tb' = [e]))"
proof (intro conjI impI allI ballI)
  assume "specs = None"
  with assms show "tb' = tb" by (simp add: sync_def)
next
  assume "specs = Some []"
  with assms show "related_ids rid tb' = {}" by (auto simp: sync_def)
next
  fix ds assume "specs = Some ds"
  with assms show "related_ids rid tb' = ent_id ` named u ds tb'"
    using sync_Some_links by simp
next
  fix ds n assume "specs = Some ds" "n \<in> names ds"
  with assms show "\<exists>e. matching u n tb' = [e]"
    using sync_Some_unique by simp
qed

lemma save_rows_same_id:
  "x \<in> set (recipe_rows (save r s)) \<Longrightarrow> recipe_id x = recipe_id r \<Longrightarrow> x = r"
  by (auto simp: save_def list_ex_iff split: if_splits)

lemma save_rows_mem: "r \<in> set (recipe_rows (save r s))"
  by (auto simp: save_def list_ex_iff image_iff)

lemma save_rows_other:
  "filter (\<lambda>x. recipe_id x \<noteq> recipe_id r) (recipe_rows (save r s)) =
   filter (\<lambda>x. recipe_id x \<noteq> recipe_id r) (recipe_rows s)"
proof -
  have "filter (\<lambda>x. recipe_id x \<noteq> recipe_id r) (map (\<lambda>x. if recipe_id x = recipe_id r then r else x) xs)
        = filter (\<lambda>x. recipe_id x \<noteq> recipe_id r) xs" for xs
    by (induction xs) auto
  then show ?thesis by (simp add: save_def)
qed

subsection \<open>Evaluating the sample update\<close>

lemma filter_insert:
  "Set.filter P (insert x A) = (if P x then insert x (Set.filter P A) else Set.filter P A)"
  by auto

lemma filter_empty: "Set.filter P {} = {}"
  by auto

lemma sample_update_result:
  "update 1 sample_recipe sample_update sample_store = Inr (updated_recipe, updated_store)"
  by (simp del: Set.filter_eq add: filter_empty update_def get_or_create_def matching_def insert_row_def add_def clear_def
        save_def set_attrs_def sample_update_def sample_store_def sample_recipe_def
        sample_tags_def sample_ingredients_def updated_recipe_def updated_store_def
        Let_def filter_insert insert_commute)

lemma sample_payload_result:
  "update 1 sample_recipe (validated_data sample_payload) sample_store =
     Inr (updated_recipe, updated_store)"
  using sample_update_result by (simp add: validated_data_def sample_payload_def)

subsection \<open>Creating a recipe in a store with unique keys\<close>

lemma get_or_create_wf:
  "get_or_create u n tb = Inr (e, c, tb1) \<Longrightarrow> wf_rows tb \<Longrightarrow> wf_rows tb1"
  by (fastforce simp: get_or_create_def insert_row_def wf_rows_def Let_def
        split: list.splits)

lemma wf_rows_add [simp]: "wf_rows (add rid e tb) = wf_rows tb"
  by (simp add: wf_rows_def add_def)

lemma wf_rows_clear [simp]: "wf_rows (clear rid tb) = wf_rows tb"
  by (simp add: wf_rows_def clear_def)

lemma link_all_wf:
  "link_all u rid ds tb = Inr tb' \<Longrightarrow> wf_rows tb \<Longrightarrow> wf_rows tb'"
proof (induction ds arbitrary: tb)
  case Nil
  then show ?case by simp
next
  case (Cons d ds)
  from Cons.prems(1) obtain e c tb1 where
    g: "get_or_create u (spec_name d) tb = Inr (e, c, tb1)"
    and l: "link_all u rid ds (add rid e tb1) = Inr tb'"
    by (auto split: sum.splits)
  from get_or_create_wf[OF g Cons.prems(2)] have "wf_rows (add rid e tb1)" by simp
  from Cons.IH[OF l this] show ?case .
qed

lemma link_all_fresh:
  assumes "link_all u rid ds tb = Inr tb'" "\<forall>p \<in> links tb. fst p \<noteq> rid"
  shows "related_ids rid tb' = ent_id ` named u ds tb'"
proof -
  have "links tb' = links tb \<union> (\<lambda>e. (rid, ent_id e)) ` named u ds tb'"
    using link_all_links[OF assms(1)] .
  then have "\<And>x. (rid, x) \<in> links tb' \<longleftrightarrow> x \<in> ent_id ` named u ds tb'"
    using assms(2) by auto
  then show ?thesis by (auto simp: related_ids_iff)
qed

lemma related_named:
  assumes "wf_rows tb" "related_ids rid tb = ent_id ` named u ds tb"
  shows "related rid tb = filter (\<lambda>e. ent_user e = u \<and> ent_name e \<in> names ds) (rows tb)"
proof -
  have inj: "inj_on ent_id (set (rows tb))"
    using assms(1) by (simp add: wf_rows_def distinct_map)
  have "\<And>e. e \<in> set (rows tb) \<Longrightarrow>
          (rid, ent_id e) \<in> links tb \<longleftrightarrow> ent_user e = u \<and> ent_name e \<in> names ds"
  proof -
    fix e assume e: "e \<in> set (rows tb)"
    have "(rid, ent_id e) \<in> links tb \<longleftrightarrow> ent_id e \<in> ent_id ` named u ds tb"
      using assms(2) by (simp add: related_ids_iff[symmetric])
    also have "\<dots> \<longleftrightarrow> e \<in> named u ds tb"
    proof
      assume "ent_id e \<in> ent_id ` named u ds tb"
      then obtain e' where e': "e' \<in> named u ds tb" "ent_id e = ent_id e'" by auto
      then have "e' \<in> set (rows tb)" by (simp add: named_def)
      with inj e e'(2) have "e = e'" by (auto dest: inj_onD)
      with e'(1) show "e \<in> named u ds tb" by simp
    qed simp
    finally show "(rid, ent_id e) \<in> links tb \<longleftrightarrow> ent_user e = u \<and> ent_name e \<in> names ds"
      using e by (simp add: named_def)
  qed
  then show ?thesis unfolding related_def by (intro filter_cong) auto
qed

lemma named_names:
  assumes "\<And>n. n \<in> names ds \<Longrightarrow> length (matching u n tb) = 1"
  shows "set (map ent_name (filter (\<lambda>e. ent_user e = u \<and> ent_name e \<in> names ds) (rows tb))) = names ds"
proof (intro set_eqI iffI)
  fix n assume "n \<in> set (map ent_name (filter (\<lambda>e. ent_user e = u \<and> ent_name e \<in> names ds) (rows tb)))"
  then show "n \<in> names ds" by auto
next
  fix n assume n: "n \<in> names ds"
  from assms[OF n] obtain e where "matching u n tb = [e]"
    by (cases "matching u n tb") auto
  then have "e \<in> set (matching u n tb)" by simp
  then have "e \<in> set (rows tb)" "ent_user e = u" "ent_name e = n"
    by (simp_all add: set_matching)
  with n show "n \<in> set (map ent_name (filter (\<lambda>e. ent_user e = u \<and> ent_name e \<in> names ds) (rows tb)))"
    by (auto simp: image_iff)
qed

lemma named_distinct:
  assumes "wf_rows tb" "\<And>n. n \<in> names ds \<Longrightarrow> length (matching u n tb) = 1"
  shows "distinct (map ent_name (filter (\<lambda>e. ent_user e = u \<and> ent_name e \<in> names ds) (rows tb)))"
proof -
  have "distinct (rows tb)"
    using assms(1) by (simp add: wf_rows_def distinct_map)
  moreover have "inj_on ent_name (set (filter (\<lambda>e. ent_user e = u \<and> ent_name e \<in> names ds) (rows tb)))"
  proof (rule inj_onI)
    fix x y
    assume x: "x \<in> set (filter (\<lambda>e. ent_user e = u \<and> ent_name e \<in> names ds) (rows tb))"
      and y: "y \<in> set (filter (\<lambda>e. ent_user e = u \<and> ent_name e \<in> names ds) (rows tb))"
      and xy: "ent_name x = ent_name y"
    from x have n: "ent_name x \<in> names ds" by simp
    from assms(2)[OF n] obtain e where e: "matching u (ent_name x) tb = [e]"
      by (cases "matching u (ent_name x) tb") auto
    from x have "x \<in> set (matching u (ent_name x) tb)" by (simp add: set_matching)
    moreover from y xy have "y \<in> set (matching u (ent_name x) tb)" by (simp add: set_matching)
    ultimately show "x = y" unfolding e by simp
  qed
  ultimately show ?thesis by (simp add: distinct_map)
qed

lemma create_Inr:
  assumes "create u d s = Inr (r, s')"
  obtains ttb itb where
    "link_all u (next_recipe_id s) (case cd_tags d of None \<Rightarrow> [] | Some ts \<Rightarrow> ts) (tag_tbl s) = Inr ttb"
    "link_all u (next_recipe_id s) (case cd_ingredients d of None \<Rightarrow> [] | Some is \<Rightarrow> is) (ingredient_tbl s) = Inr itb"
    "recipe_id r = next_recipe_id s"
    "tag_tbl s' = ttb" "ingredient_tbl s' = itb"
    "r = fst (objects_create d s)"
  using assms
  by (auto simp: create_def objects_create_def tags_link_all ingredients_link_all Let_def
        split: sum.splits)

lemma create_total:
  assumes "unambiguous u (case cd_tags d of None \<Rightarrow> [] | Some ts \<Rightarrow> ts) (tag_tbl s)"
    "unambiguous u (case cd_ingredients d of None \<Rightarrow> [] | Some is \<Rightarrow> is) (ingredient_tbl s)"
  shows "\<exists>r s'. create u d s = Inr (r, s')"
proof -
  obtain ttb where "link_all u (next_recipe_id s) (case cd_tags d of None \<Rightarrow> [] | Some ts \<Rightarrow> ts) (tag_tbl s) = Inr ttb"
    using link_all_total[of "case cd_tags d of None \<Rightarrow> [] | Some ts \<Rightarrow> ts" u "tag_tbl s" "next_recipe_id s"] assms(1)
    by (auto simp: unambiguous_def)
  moreover obtain itb where "link_all u (next_recipe_id s) (case cd_ingredients d of None \<Rightarrow> [] | Some is \<Rightarrow> is) (ingredient_tbl s) = Inr itb"
    using link_all_total[of "case cd_ingredients d of None \<Rightarrow> [] | Some is \<Rightarrow> is" u "ingredient_tbl s" "next_recipe_id s"] assms(2)
    by (auto simp: unambiguous_def)
  ultimately show ?thesis
    by (simp add: create_def objects_create_def tags_link_all ingredients_link_all Let_def)
qed

subsection \<open>Requests by id and listings\<close>

lemma find_by_key:
  "distinct (map f xs) \<Longrightarrow> x \<in> set xs \<Longrightarrow> find (\<lambda>y. f y = f x) xs = Some x"
  by (induction xs) (auto simp: image_iff)

lemma items_distinct: "wf_store s \<Longrightarrow> distinct (map item_id (items k s))"
  by (cases k) (simp_all add: wf_store_def wf_rows_def comp_def)

lemma get_owned_found:
  assumes "wf_store s" "x \<in> set (items k s)"
  shows "get_owned k owner (item_id x) s = (if item_owner x = owner then Inr x else Inl NotFound)"
  using find_by_key[OF items_distinct[OF assms(1)] assms(2)] by (simp add: get_owned_def)

lemma set_assigned:
  "set (assigned tb rs) = {e \<in> set (rows tb). referenced tb rs e}"
  by (auto simp: assigned_def referenced_def list_ex_iff)

lemma set_list_entities:
  "set (list_entities owner True tb rs) =
     {e \<in> set (rows tb). ent_user e = owner \<and> referenced tb rs e}"
  by (auto simp: list_entities_def set_assigned)

lemma distinct_list_entities: "distinct (list_entities owner a tb rs)"
  by (simp add: list_entities_def)

lemma count_list_distinct:
  "distinct xs \<Longrightarrow> count_list xs x = (if x \<in> set xs then 1 else 0)"
  by (induction xs) auto

subsection \<open>Evaluating the other samples\<close>

lemmas sample_data =
  sample_store_def sample_recipe_def sample_tags_def sample_ingredients_def

lemma sample_store_wf: "wf_store sample_store"
  by (simp add: wf_store_def wf_rows_def sample_data)

lemma sample_create_result:
  "create 1 sample_create sample_store = Inr (created_recipe, created_store)"
  by (simp del: Set.filter_eq add: filter_empty create_def objects_create_def get_or_create_def
        matching_def insert_row_def add_def sample_create_def sample_data
        created_recipe_def created_store_def Let_def filter_insert insert_commute)

lemma sample_create_no_ingredients: "cd_ingredients sample_create = None"
  by (simp add: sample_create_def)

subsection \<open>The serializer keeps the integrity of the store\<close>

text \<open>
  \<open>wf_store\<close> is an invariant of \<open>create\<close> and of \<open>update\<close> on a stored recipe.
\<close>

lemma link_all_links_bound:
  assumes "link_all u rid ds tb = Inr tb'" "\<forall>p \<in> links tb. fst p < n" "rid < n"
  shows "\<forall>p \<in> links tb'. fst p < n"
  using link_all_links[OF assms(1)] assms(2,3) by auto

lemma clear_links_bound:
  "\<forall>p \<in> links tb. fst p < n \<Longrightarrow> \<forall>p \<in> links (clear rid tb). fst p < n"
  by (simp add: clear_def)

lemma sync_wf:
  assumes "sync u rid specs tb = Inr tb'" "wf_rows tb" "\<forall>p \<in> links tb. fst p < n" "rid < n"
  shows "wf_rows tb' \<and> (\<forall>p \<in> links tb'. fst p < n)"
proof (cases specs)
  case None
  with assms show ?thesis by (simp add: sync_def)
next
  case (Some ds)
  with assms(1) have l: "link_all u rid ds (clear rid tb) = Inr tb'" by (simp add: sync_def)
  have "wf_rows tb'" using link_all_wf[OF l] assms(2) by simp
  moreover have "\<forall>p \<in> links tb'. fst p < n"
    using link_all_links_bound[OF l clear_links_bound[OF assms(3)] assms(4)] .
  ultimately show ?thesis by simp
qed

lemma create_wf:
  assumes "wf_store s" "create u d s = Inr (r, s')"
  shows "wf_store s'"
proof -
  from assms(2) obtain ttb itb where
    t: "link_all u (next_recipe_id s) (case cd_tags d of None \<Rightarrow> [] | Some ts \<Rightarrow> ts) (tag_tbl s) = Inr ttb"
    and i: "link_all u (next_recipe_id s) (case cd_ingredients d of None \<Rightarrow> [] | Some is \<Rightarrow> is) (ingredient_tbl s) = Inr itb"
    and tb: "tag_tbl s' = ttb" "ingredient_tbl s' = itb"
    by (rule create_Inr)
  have rr: "recipe_rows s' = recipe_rows s @ [fst (objects_create d s)]"
    and nr: "next_recipe_id s' = Suc (next_recipe_id s)"
    using assms(2)
    by (auto simp: create_def objects_create_def tags_link_all ingredients_link_all Let_def
          split: sum.splits)
  have b: "\<forall>p \<in> links (tag_tbl s). fst p < Suc (next_recipe_id s)"
    "\<forall>p \<in> links (ingredient_tbl s). fst p < Suc (next_recipe_id s)"
    using assms(1) by (auto simp: wf_store_def less_Suc_eq)
  have "wf_rows ttb" "wf_rows itb"
    using link_all_wf[OF t] link_all_wf[OF i] assms(1) by (simp_all add: wf_store_def)
  moreover have "\<forall>p \<in> links ttb. fst p < Suc (next_recipe_id s)"
    using link_all_links_bound[OF t b(1)] by simp
  moreover have "\<forall>p \<in> links itb. fst p < Suc (next_recipe_id s)"
    using link_all_links_bound[OF i b(2)] by simp
  moreover have "distinct (map recipe_id (recipe_rows s'))"
    "\<forall>x \<in> set (recipe_rows s'). recipe_id x < Suc (next_recipe_id s)"
    using assms(1) by (auto simp: rr wf_store_def objects_create_def Let_def less_Suc_eq)
  ultimately show ?thesis by (simp add: wf_store_def tb nr)
qed

lemma save_found:
  "i \<in> set (recipe_rows s) \<Longrightarrow> recipe_id r = recipe_id i \<Longrightarrow>
     map recipe_id (recipe_rows (save r s)) = map recipe_id (recipe_rows s)"
proof -
  assume i: "i \<in> set (recipe_rows s)" and id: "recipe_id r = recipe_id i"
  then have "list_ex (\<lambda>x. recipe_id x = recipe_id r) (recipe_rows s)"
    by (auto simp: list_ex_iff)
  moreover have "map recipe_id (map (\<lambda>x. if recipe_id x = recipe_id r then r else x) xs)
      = map recipe_id xs" for xs
    by (induction xs) auto
  ultimately show ?thesis by (simp add: save_def)
qed

lemma update_wf:
  assumes "wf_store s" "i \<in> set (recipe_rows s)" "update u i d s = Inr (r', s')"
  shows "wf_store s'"
proof -
  from assms(3) obtain itb ttb where
    si: "sync u (recipe_id i) (ud_ingredients d) (ingredient_tbl s) = Inr itb"
    and st: "sync u (recipe_id i) (ud_tags d) (tag_tbl s) = Inr ttb"
    and r': "r' = set_attrs d i"
    and s': "s' = save r' (s\<lparr>ingredient_tbl := itb, tag_tbl := ttb\<rparr>)"
    by (rule update_Inr)
  have lt: "recipe_id i < next_recipe_id s"
    using assms(1,2) by (simp add: wf_store_def)
  have wi: "wf_rows itb \<and> (\<forall>p \<in> links itb. fst p < next_recipe_id s)"
    using sync_wf[OF si _ _ lt] assms(1) by (simp add: wf_store_def)
  have wt: "wf_rows ttb \<and> (\<forall>p \<in> links ttb. fst p < next_recipe_id s)"
    using sync_wf[OF st _ _ lt] assms(1) by (simp add: wf_store_def)
  have ids: "map recipe_id (recipe_rows s') = map recipe_id (recipe_rows s)"
    unfolding s' using save_found[of i "s\<lparr>ingredient_tbl := itb, tag_tbl := ttb\<rparr>" r'] assms(2)
    by (simp add: r')
  have "distinct (map recipe_id (recipe_rows s'))"
    using assms(1) by (simp add: ids wf_store_def)
  moreover have "\<forall>x \<in> set (recipe_rows s'). recipe_id x < next_recipe_id s"
  proof
    fix x assume "x \<in> set (recipe_rows s')"
    then have "recipe_id x \<in> set (map recipe_id (recipe_rows s'))" by simp
    then have "recipe_id x \<in> set (map recipe_id (recipe_rows s))" by (simp only: ids)
    then show "recipe_id x < next_recipe_id s"
      using assms(1) by (auto simp: wf_store_def)
  qed
  ultimately show ?thesis using wi wt by (simp add: wf_store_def s')
qed

subsection \<open>The loops with the store they leave behind\<close>

lemma tags_run_link_all:
  "get_or_create_tags_run u i ds s =
     (case link_all_run u (recipe_id i) ds (tag_tbl s) of (r, tb) \<Rightarrow> (r, s\<lparr>tag_tbl := tb\<rparr>))"
  by (induction ds arbitrary: s) (auto split: sum.splits prod.splits)

lemma ingredients_run_link_all:
  "get_or_create_ingredients_run u i ds s =
     (case link_all_run u (recipe_id i) ds (ingredient_tbl s) of
        (r, tb) \<Rightarrow> (r, s\<lparr>ingredient_tbl := tb\<rparr>))"
  by (induction ds arbitrary: s) (auto split: sum.splits prod.splits)

lemma link_all_run_agrees:
  "link_all u rid ds tb =
     (case link_all_run u rid ds tb of (None, tb') \<Rightarrow> Inr tb' | (Some e, tb') \<Rightarrow> Inl e)"
  by (induction ds arbitrary: tb) (auto split: sum.splits prod.splits)

lemma link_all_run_stable:
  "matching u' m tb \<noteq> [] \<Longrightarrow> matching u' m (snd (link_all_run u rid ds tb)) = matching u' m tb"
proof (induction ds arbitrary: tb)
  case Nil
  then show ?case by simp
next
  case (Cons d ds)
  show ?case
  proof (cases "get_or_create u (spec_name d) tb")
    case (Inl e)
    then show ?thesis by simp
  next
    case (Inr y)
    then obtain e c tb1 where g: "get_or_create u (spec_name d) tb = Inr (e, c, tb1)"
      by (cases y) auto
    have m: "matching u' m (add rid e tb1) = matching u' m tb"
      using get_or_create_stable[OF g Cons.prems] by simp
    with Cons.prems have "matching u' m (add rid e tb1) \<noteq> []" by simp
    from Cons.IH[OF this] m g show ?thesis by simp
  qed
qed

lemma link_all_ambiguous:
  assumes "n \<in> names ds" "1 < length (matching u n tb)"
  shows "link_all u rid ds tb = Inl MultipleObjectsReturned"
proof (cases "link_all u rid ds tb")
  case (Inl e)
  with link_all_raises[of u rid ds tb e] show ?thesis by simp
next
  case (Inr tb')
  from assms(2) have ne: "matching u n tb \<noteq> []" by auto
  have "length (matching u n tb') = 1" using link_all_unique[OF Inr assms(1)] .
  moreover have "matching u n tb' = matching u n tb" using link_all_stable[OF Inr ne] .
  ultimately show ?thesis using assms(2) by simp
qed

lemma link_all_uses_existing:
  assumes "matching u n tb = [e]" "n \<in> names ds" "link_all u rid ds tb = Inr tb'"
  shows "(rid, ent_id e) \<in> links tb'"
proof -
  have "matching u n tb' = [e]" using link_all_stable[OF assms(3), of u n] assms(1) by simp
  then have "e \<in> set (matching u n tb')" by simp
  then have "e \<in> named u ds tb'" using assms(2) by (simp add: set_matching named_def)
  then show ?thesis using link_all_links[OF assms(3)] by auto
qed

lemma link_all_single:
  "matching u n tb = [e] \<Longrightarrow> link_all u rid [\<lparr>spec_name = n\<rparr>] tb = Inr (add rid e tb)"
  by (simp add: get_or_create_def)

lemma link_all_existing:
  assumes "matching u n tb \<noteq> []"
  shows "matching u n (snd (link_all_run u rid ds tb)) = matching u n tb \<and>
     (\<forall>tb'. link_all u rid ds tb = Inr tb' \<longrightarrow> link_all_run u rid ds tb = (None, tb')) \<and>
     (\<forall>e. matching u n tb = [e] \<longrightarrow>
        link_all u rid [\<lparr>spec_name = n\<rparr>] tb = Inr (add rid e tb) \<and>
        (n \<in> names ds \<longrightarrow>
           (\<forall>tb'. link_all u rid ds tb = Inr tb' \<longrightarrow> (rid, ent_id e) \<in> links tb'))) \<and>
     (1 < length (matching u n tb) \<and> n \<in> names ds \<longrightarrow>
        link_all u rid ds tb = Inl MultipleObjectsReturned)"
proof (intro conjI allI impI)
  show "matching u n (snd (link_all_run u rid ds tb)) = matching u n tb"
    using link_all_run_stable[OF assms] .
next
  fix tb' assume "link_all u rid ds tb = Inr tb'"
  then show "link_all_run u rid ds tb = (None, tb')"
    by (auto simp: link_all_run_agrees split: prod.splits option.splits)
next
  fix e assume "matching u n tb = [e]"
  then show "link_all u rid [\<lparr>spec_name = n\<rparr>] tb = Inr (add rid e tb)"
    by (rule link_all_single)
next
  fix e tb' assume "matching u n tb = [e]" "n \<in> names ds" "link_all u rid ds tb = Inr tb'"
  then show "(rid, ent_id e) \<in> links tb'" by (rule link_all_uses_existing)
next
  assume "1 < length (matching u n tb) \<and> n \<in> names ds"
  then show "link_all u rid ds tb = Inl MultipleObjectsReturned"
    using link_all_ambiguous by blast
qed

lemma tags_Inr_iff:
  "get_or_create_tags u i ds s = Inr s' \<longleftrightarrow>
     (\<exists>tb'. link_all u (recipe_id i) ds (tag_tbl s) = Inr tb' \<and> s' = s\<lparr>tag_tbl := tb'\<rparr>)"
  by (auto simp: tags_link_all split: sum.splits)

lemma ingredients_Inr_iff:
  "get_or_create_ingredients u i ds s = Inr s' \<longleftrightarrow>
     (\<exists>tb'. link_all u (recipe_id i) ds (ingredient_tbl s) = Inr tb' \<and> s' = s\<lparr>ingredient_tbl := tb'\<rparr>)"
  by (auto simp: ingredients_link_all split: sum.splits)

lemma twice_run:
  "get_or_create_tags_run 1 sample_recipe [\<lparr>spec_name = ''Dinner''\<rparr>, \<lparr>spec_name = ''Indian''\<rparr>]
     twice_store = (Some MultipleObjectsReturned, twice_store_after)"
  by (simp add: get_or_create_def matching_def insert_row_def add_def Let_def twice_store_def
        twice_store_after_def twice_tags_def sample_store_def sample_recipe_def)

section \<open>Updating a recipe\<close>

text \<open>
  Claim C1. An update that returns treats each relation by what the validated data hold
  for it. Tags absent: the tag table, and with it the tag set of the recipe, is as it was.
  Tags present and empty: the recipe has no tag. Tags present: the tags of the recipe are
  exactly the rows of the requesting user that the list names, one row for each name,
  whatever the recipe carried before. The same holds of the ingredients, whatever the
  tags are. An update returns whenever no listed name matches more than one row of the
  user.
\<close>

theorem update_relation_policy:
  "((\<forall>ds. ud_ingredients d = Some ds \<longrightarrow> unambiguous u ds (ingredient_tbl s)) \<and>
    (\<forall>ds. ud_tags d = Some ds \<longrightarrow> unambiguous u ds (tag_tbl s)) \<longrightarrow>
      (\<exists>r' s'. update u i d s = Inr (r', s'))) \<and>
   (\<forall>r' s'. update u i d s = Inr (r', s') \<longrightarrow>
      (ud_tags d = None \<longrightarrow> tag_tbl s' = tag_tbl s) \<and>
      (ud_tags d = Some [] \<longrightarrow> related_ids (recipe_id i) (tag_tbl s') = {}) \<and>
      (\<forall>ds. ud_tags d = Some ds \<longrightarrow>
         related_ids (recipe_id i) (tag_tbl s') = ent_id ` named u ds (tag_tbl s') \<and>
         (\<forall>n \<in> names ds. \<exists>e. matching u n (tag_tbl s') = [e])) \<and>
      (ud_ingredients d = None \<longrightarrow> ingredient_tbl s' = ingredient_tbl s) \<and>
      (ud_ingredients d = Some [] \<longrightarrow> related_ids (recipe_id i) (ingredient_tbl s') = {}) \<and>
      (\<forall>ds. ud_ingredients d = Some ds \<longrightarrow>
         related_ids (recipe_id i) (ingredient_tbl s') = ent_id ` named u ds (ingredient_tbl s') \<and>
         (\<forall>n \<in> names ds. \<exists>e. matching u n (ingredient_tbl s') = [e])))"
proof (rule conjI; intro allI impI)
  assume a: "(\<forall>ds. ud_ingredients d = Some ds \<longrightarrow> unambiguous u ds (ingredient_tbl s)) \<and>
    (\<forall>ds. ud_tags d = Some ds \<longrightarrow> unambiguous u ds (tag_tbl s))"
  obtain itb where "sync u (recipe_id i) (ud_ingredients d) (ingredient_tbl s) = Inr itb"
    using sync_total[of "ud_ingredients d" u "ingredient_tbl s" "recipe_id i"] a by blast
  moreover obtain ttb where "sync u (recipe_id i) (ud_tags d) (tag_tbl s) = Inr ttb"
    using sync_total[of "ud_tags d" u "tag_tbl s" "recipe_id i"] a by blast
  ultimately show "\<exists>r' s'. update u i d s = Inr (r', s')"
    by (simp add: update_sync)
next
  fix r' s' assume h: "update u i d s = Inr (r', s')"
  from h obtain itb ttb where
    i: "sync u (recipe_id i) (ud_ingredients d) (ingredient_tbl s) = Inr itb"
    and t: "sync u (recipe_id i) (ud_tags d) (tag_tbl s) = Inr ttb"
    and s': "s' = save r' (s\<lparr>ingredient_tbl := itb, tag_tbl := ttb\<rparr>)"
    by (rule update_Inr)
  have tb: "tag_tbl s' = ttb" "ingredient_tbl s' = itb" by (simp_all add: s')
  show "(ud_tags d = None \<longrightarrow> tag_tbl s' = tag_tbl s) \<and>
      (ud_tags d = Some [] \<longrightarrow> related_ids (recipe_id i) (tag_tbl s') = {}) \<and>
      (\<forall>ds. ud_tags d = Some ds \<longrightarrow>
         related_ids (recipe_id i) (tag_tbl s') = ent_id ` named u ds (tag_tbl s') \<and>
         (\<forall>n \<in> names ds. \<exists>e. matching u n (tag_tbl s') = [e])) \<and>
      (ud_ingredients d = None \<longrightarrow> ingredient_tbl s' = ingredient_tbl s) \<and>
      (ud_ingredients d = Some [] \<longrightarrow> related_ids (recipe_id i) (ingredient_tbl s') = {}) \<and>
      (\<forall>ds. ud_ingredients d = Some ds \<longrightarrow>
         related_ids (recipe_id i) (ingredient_tbl s') = ent_id ` named u ds (ingredient_tbl s') \<and>
         (\<forall>n \<in> names ds. \<exists>e. matching u n (ingredient_tbl s') = [e]))"
    unfolding tb using sync_policy[OF t] sync_policy[OF i] by simp
qed

text \<open>
  The sample update, with the tags Indian, Dinner, Indian and no ingredient: the
  recipe loses Breakfast and its ingredient, and carries Indian (row 0) and the new
  row Dinner (row 3).
\<close>

theorem update_relation_policy_witness:
  "unambiguous 1 [\<lparr>spec_name = ''Indian''\<rparr>, \<lparr>spec_name = ''Dinner''\<rparr>, \<lparr>spec_name = ''Indian''\<rparr>]
     (tag_tbl sample_store) \<and>
   unambiguous 1 [] (ingredient_tbl sample_store) \<and>
   update 1 sample_recipe sample_update sample_store = Inr (updated_recipe, updated_store) \<and>
   related_ids 0 (tag_tbl updated_store) =
     ent_id ` named 1 [\<lparr>spec_name = ''Indian''\<rparr>, \<lparr>spec_name = ''Dinner''\<rparr>, \<lparr>spec_name = ''Indian''\<rparr>]
       (tag_tbl updated_store) \<and>
   related_ids 0 (tag_tbl updated_store) = {0, 3} \<and>
   related_ids 0 (ingredient_tbl updated_store) = {}"
proof -
  have t: "ud_tags sample_update =
      Some [\<lparr>spec_name = ''Indian''\<rparr>, \<lparr>spec_name = ''Dinner''\<rparr>, \<lparr>spec_name = ''Indian''\<rparr>]"
    and i: "ud_ingredients sample_update = Some []"
    by (simp_all add: sample_update_def)
  have u: "unambiguous 1 [\<lparr>spec_name = ''Indian''\<rparr>, \<lparr>spec_name = ''Dinner''\<rparr>, \<lparr>spec_name = ''Indian''\<rparr>]
     (tag_tbl sample_store)" "unambiguous 1 [] (ingredient_tbl sample_store)"
    by (simp_all add: unambiguous_def names_def matching_def sample_store_def sample_tags_def)
  have id: "recipe_id sample_recipe = 0" by (simp add: sample_recipe_def)
  have r: "related_ids 0 (tag_tbl updated_store) = {0, 3}"
    by (auto simp: related_ids_iff updated_store_def)
  note p = update_relation_policy [of sample_update 1 sample_store sample_recipe,
      THEN conjunct2, rule_format, OF sample_update_result]
  from p t have "related_ids 0 (tag_tbl updated_store) =
     ent_id ` named 1 [\<lparr>spec_name = ''Indian''\<rparr>, \<lparr>spec_name = ''Dinner''\<rparr>, \<lparr>spec_name = ''Indian''\<rparr>]
       (tag_tbl updated_store)"
    by (simp add: id)
  moreover from p i have "related_ids 0 (ingredient_tbl updated_store) = {}"
    by (simp add: id)
  ultimately show ?thesis using u r sample_update_result by simp
qed

text \<open>
  Claim C5. The owner of a recipe is the same after an update as before, in the
  instance returned and in the stored row, and a \<^verbatim>\<open>user\<close> key of the payload changes
  nothing: the update with any other value for it, or without it, gives the same result.
\<close>

theorem update_keeps_owner:
  "update u i (validated_data pl) s = Inr (r', s') \<Longrightarrow>
     recipe_user r' = recipe_user i \<and>
     (\<forall>x \<in> set (recipe_rows s'). recipe_id x = recipe_id i \<longrightarrow> recipe_user x = recipe_user i) \<and>
     update u i (validated_data (pl\<lparr>pl_user := w\<rparr>)) s = Inr (r', s')"
proof -
  assume h: "update u i (validated_data pl) s = Inr (r', s')"
  from h obtain itb ttb where r': "r' = set_attrs (validated_data pl) i"
    and s': "s' = save r' (s\<lparr>ingredient_tbl := itb, tag_tbl := ttb\<rparr>)"
    by (rule update_Inr)
  have u: "recipe_user r' = recipe_user i" and id: "recipe_id r' = recipe_id i"
    by (simp_all add: r')
  have "\<forall>x \<in> set (recipe_rows s'). recipe_id x = recipe_id i \<longrightarrow> x = r'"
  proof (intro ballI impI)
    fix x assume "x \<in> set (recipe_rows s')" "recipe_id x = recipe_id i"
    then show "x = r'" unfolding s' using id by (intro save_rows_same_id) simp_all
  qed
  with u have "\<forall>x \<in> set (recipe_rows s'). recipe_id x = recipe_id i \<longrightarrow> recipe_user x = recipe_user i"
    by auto
  moreover have "validated_data (pl\<lparr>pl_user := w\<rparr>) = validated_data pl"
    by (simp add: validated_data_def)
  ultimately show ?thesis using u h by simp
qed

text \<open>
  The sample payload names user 2 as the new owner; the recipe stays with user 1.
\<close>

theorem update_keeps_owner_witness:
  "pl_user sample_payload = Some 2 \<and>
   update 1 sample_recipe (validated_data sample_payload) sample_store =
     Inr (updated_recipe, updated_store) \<and>
   recipe_user updated_recipe = 1 \<and>
   update 1 sample_recipe (validated_data (sample_payload\<lparr>pl_user := None\<rparr>)) sample_store =
     Inr (updated_recipe, updated_store)"
  using update_keeps_owner [OF sample_payload_result, of None] sample_payload_result
  by (simp add: sample_payload_def sample_recipe_def)

text \<open>
  Claim C7. After an update every scalar field holds the value of the validated data
  where the key is present and its previous value where the key is absent; the image and
  the primary key are never touched. The instance returned is the stored row, and the
  rows of the other recipes are as they were.
\<close>

theorem update_scalar_frame:
  "update u i d s = Inr (r', s') \<Longrightarrow>
     title r' = (case ud_title d of None \<Rightarrow> title i | Some v \<Rightarrow> v) \<and>
     time_minutes r' = (case ud_time_minutes d of None \<Rightarrow> time_minutes i | Some v \<Rightarrow> v) \<and>
     price r' = (case ud_price d of None \<Rightarrow> price i | Some v \<Rightarrow> v) \<and>
     link r' = (case ud_link d of None \<Rightarrow> link i | Some v \<Rightarrow> Some v) \<and>
     description r' = (case ud_description d of None \<Rightarrow> description i | Some v \<Rightarrow> Some v) \<and>
     image r' = image i \<and> recipe_id r' = recipe_id i \<and>
     r' \<in> set (recipe_rows s') \<and>
     (\<forall>x \<in> set (recipe_rows s'). recipe_id x = recipe_id i \<longrightarrow> x = r') \<and>
     filter (\<lambda>x. recipe_id x \<noteq> recipe_id i) (recipe_rows s') =
       filter (\<lambda>x. recipe_id x \<noteq> recipe_id i) (recipe_rows s)"
proof -
  assume h: "update u i d s = Inr (r', s')"
  from h obtain itb ttb where r': "r' = set_attrs d i"
    and s': "s' = save r' (s\<lparr>ingredient_tbl := itb, tag_tbl := ttb\<rparr>)"
    by (rule update_Inr)
  have id: "recipe_id r' = recipe_id i" by (simp add: r')
  have sc: "title r' = (case ud_title d of None \<Rightarrow> title i | Some v \<Rightarrow> v)"
    "time_minutes r' = (case ud_time_minutes d of None \<Rightarrow> time_minutes i | Some v \<Rightarrow> v)"
    "price r' = (case ud_price d of None \<Rightarrow> price i | Some v \<Rightarrow> v)"
    "link r' = (case ud_link d of None \<Rightarrow> link i | Some v \<Rightarrow> Some v)"
    "description r' = (case ud_description d of None \<Rightarrow> description i | Some v \<Rightarrow> Some v)"
    "image r' = image i"
    by (simp_all add: r' set_attrs_def)
  have m: "r' \<in> set (recipe_rows s')" unfolding s' by (rule save_rows_mem)
  have o: "\<forall>x \<in> set (recipe_rows s'). recipe_id x = recipe_id i \<longrightarrow> x = r'"
  proof (intro ballI impI)
    fix x assume "x \<in> set (recipe_rows s')" "recipe_id x = recipe_id i"
    then show "x = r'" unfolding s' using id by (intro save_rows_same_id) simp_all
  qed
  have "filter (\<lambda>x. recipe_id x \<noteq> recipe_id r') (recipe_rows s') =
       filter (\<lambda>x. recipe_id x \<noteq> recipe_id r') (recipe_rows s)"
    using save_rows_other [of r' "s\<lparr>ingredient_tbl := itb, tag_tbl := ttb\<rparr>"]
    by (simp add: s')
  then have f: "filter (\<lambda>x. recipe_id x \<noteq> recipe_id i) (recipe_rows s') =
       filter (\<lambda>x. recipe_id x \<noteq> recipe_id i) (recipe_rows s)"
    by (simp only: id)
  from sc id m o f show ?thesis by blast
qed

text \<open>
  Of the scalars the sample update holds the title only: the link, the time and the
  price stay.
\<close>

theorem update_scalar_frame_witness:
  "update 1 sample_recipe sample_update sample_store = Inr (updated_recipe, updated_store) \<and>
   title updated_recipe = ''New recipe title'' \<and>
   link updated_recipe = link sample_recipe \<and>
   time_minutes updated_recipe = time_minutes sample_recipe \<and>
   price updated_recipe = price sample_recipe"
  using update_scalar_frame [OF sample_update_result] sample_update_result
  by (simp add: sample_update_def)

text \<open>
  Claim C10. An update that returned, applied again with the same validated data to
  the recipe and the store it returned, returns the same recipe and the same store: the
  relations, the scalars and the rows of every table, so that no tag or ingredient row is
  added.
\<close>

theorem update_idempotent:
  "update u i d s = Inr (r1, s1) \<Longrightarrow> update u r1 d s1 = Inr (r1, s1)"
  by (rule update_idem)

text \<open>
  The sample update applied twice.
\<close>

theorem update_idempotent_witness:
  "update 1 sample_recipe sample_update sample_store = Inr (updated_recipe, updated_store) \<and>
   update 1 updated_recipe sample_update updated_store = Inr (updated_recipe, updated_store)"
  using update_idempotent [OF sample_update_result] sample_update_result by simp

section \<open>Looking a name up\<close>

text \<open>
  Claim C3, as the code has it, for \<open>_get_or_create_tags\<close> and for
  \<open>_get_or_create_ingredients\<close> alike. Take a name that the owner has at least one row
  of. Whatever list the loop runs over, and whether it returns or raises, the rows of
  that owner with that name are the same in the store the loop leaves behind as before:
  no row is added for the pair, on no path. When the owner has exactly one row of the
  name, the step for that name returns, writes nothing but the link of the recipe with
  that row, and every loop over a list with the name that returns has linked the recipe
  with that row. When the owner has more than one row of the name, every loop over a
  list with the name raises \<^verbatim>\<open>MultipleObjectsReturned\<close>.
\<close>

theorem get_or_create_existing:
  "(matching u n (tag_tbl s) \<noteq> [] \<longrightarrow>
      matching u n (tag_tbl (snd (get_or_create_tags_run u i ds s))) = matching u n (tag_tbl s) \<and>
      (\<forall>s'. get_or_create_tags u i ds s = Inr s' \<longrightarrow> get_or_create_tags_run u i ds s = (None, s')) \<and>
      (\<forall>e. matching u n (tag_tbl s) = [e] \<longrightarrow>
         get_or_create_tags u i [\<lparr>spec_name = n\<rparr>] s =
           Inr (s\<lparr>tag_tbl := add (recipe_id i) e (tag_tbl s)\<rparr>) \<and>
         (n \<in> names ds \<longrightarrow>
            (\<forall>s'. get_or_create_tags u i ds s = Inr s' \<longrightarrow>
               (recipe_id i, ent_id e) \<in> links (tag_tbl s')))) \<and>
      (1 < length (matching u n (tag_tbl s)) \<and> n \<in> names ds \<longrightarrow>
         get_or_create_tags u i ds s = Inl MultipleObjectsReturned)) \<and>
   (matching u n (ingredient_tbl s) \<noteq> [] \<longrightarrow>
      matching u n (ingredient_tbl (snd (get_or_create_ingredients_run u i ds s))) =
        matching u n (ingredient_tbl s) \<and>
      (\<forall>s'. get_or_create_ingredients u i ds s = Inr s' \<longrightarrow>
         get_or_create_ingredients_run u i ds s = (None, s')) \<and>
      (\<forall>e. matching u n (ingredient_tbl s) = [e] \<longrightarrow>
         get_or_create_ingredients u i [\<lparr>spec_name = n\<rparr>] s =
           Inr (s\<lparr>ingredient_tbl := add (recipe_id i) e (ingredient_tbl s)\<rparr>) \<and>
         (n \<in> names ds \<longrightarrow>
            (\<forall>s'. get_or_create_ingredients u i ds s = Inr s' \<longrightarrow>
               (recipe_id i, ent_id e) \<in> links (ingredient_tbl s')))) \<and>
      (1 < length (matching u n (ingredient_tbl s)) \<and> n \<in> names ds \<longrightarrow>
         get_or_create_ingredients u i ds s = Inl MultipleObjectsReturned))"
proof (rule conjI; rule impI)
  assume a: "matching u n (tag_tbl s) \<noteq> []"
  note l = link_all_existing[OF a, where rid = "recipe_id i" and ds = ds]
  have 1: "matching u n (tag_tbl (snd (get_or_create_tags_run u i ds s))) = matching u n (tag_tbl s)"
    using link_all_run_stable[OF a, where u = u and rid = "recipe_id i" and ds = ds]
    by (simp add: tags_run_link_all split_beta)
  have 2: "\<forall>s'. get_or_create_tags u i ds s = Inr s' \<longrightarrow> get_or_create_tags_run u i ds s = (None, s')"
    using l by (auto simp: tags_Inr_iff tags_run_link_all)
  have 3: "\<forall>e. matching u n (tag_tbl s) = [e] \<longrightarrow>
        get_or_create_tags u i [\<lparr>spec_name = n\<rparr>] s =
          Inr (s\<lparr>tag_tbl := add (recipe_id i) e (tag_tbl s)\<rparr>)"
    by (simp add: get_or_create_def)
  have 4: "\<forall>e. matching u n (tag_tbl s) = [e] \<longrightarrow> n \<in> names ds \<longrightarrow>
           (\<forall>s'. get_or_create_tags u i ds s = Inr s' \<longrightarrow>
              (recipe_id i, ent_id e) \<in> links (tag_tbl s'))"
    using l by (auto simp: tags_Inr_iff)
  have 5: "1 < length (matching u n (tag_tbl s)) \<and> n \<in> names ds \<longrightarrow>
        get_or_create_tags u i ds s = Inl MultipleObjectsReturned"
    using l by (auto simp: tags_link_all)
  from 1 2 3 4 5
  show "matching u n (tag_tbl (snd (get_or_create_tags_run u i ds s))) = matching u n (tag_tbl s) \<and>
      (\<forall>s'. get_or_create_tags u i ds s = Inr s' \<longrightarrow> get_or_create_tags_run u i ds s = (None, s')) \<and>
      (\<forall>e. matching u n (tag_tbl s) = [e] \<longrightarrow>
         get_or_create_tags u i [\<lparr>spec_name = n\<rparr>] s =
           Inr (s\<lparr>tag_tbl := add (recipe_id i) e (tag_tbl s)\<rparr>) \<and>
         (n \<in> names ds \<longrightarrow>
            (\<forall>s'. get_or_create_tags u i ds s = Inr s' \<longrightarrow>
               (recipe_id i, ent_id e) \<in> links (tag_tbl s')))) \<and>
      (1 < length (matching u n (tag_tbl s)) \<and> n \<in> names ds \<longrightarrow>
         get_or_create_tags u i ds s = Inl MultipleObjectsReturned)"
    by blast
next
  assume a: "matching u n (ingredient_tbl s) \<noteq> []"
  note l = link_all_existing[OF a, where rid = "recipe_id i" and ds = ds]
  have 1: "matching u n (ingredient_tbl (snd (get_or_create_ingredients_run u i ds s))) =
       matching u n (ingredient_tbl s)"
    using link_all_run_stable[OF a, where u = u and rid = "recipe_id i" and ds = ds]
    by (simp add: ingredients_run_link_all split_beta)
  have 2: "\<forall>s'. get_or_create_ingredients u i ds s = Inr s' \<longrightarrow>
        get_or_create_ingredients_run u i ds s = (None, s')"
    using l by (auto simp: ingredients_Inr_iff ingredients_run_link_all)
  have 3: "\<forall>e. matching u n (ingredient_tbl s) = [e] \<longrightarrow>
        get_or_create_ingredients u i [\<lparr>spec_name = n\<rparr>] s =
          Inr (s\<lparr>ingredient_tbl := add (recipe_id i) e (ingredient_tbl s)\<rparr>)"
    by (simp add: get_or_create_def)
  have 4: "\<forall>e. matching u n (ingredient_tbl s) = [e] \<longrightarrow> n \<in> names ds \<longrightarrow>
           (\<forall>s'. get_or_create_ingredients u i ds s = Inr s' \<longrightarrow>
              (recipe_id i, ent_id e) \<in> links (ingredient_tbl s'))"
    using l by (auto simp: ingredients_Inr_iff)
  have 5: "1 < length (matching u n (ingredient_tbl s)) \<and> n \<in> names ds \<longrightarrow>
        get_or_create_ingredients u i ds s = Inl MultipleObjectsReturned"
    using l by (auto simp: ingredients_link_all)
  from 1 2 3 4 5
  show "matching u n (ingredient_tbl (snd (get_or_create_ingredients_run u i ds s))) =
        matching u n (ingredient_tbl s) \<and>
      (\<forall>s'. get_or_create_ingredients u i ds s = Inr s' \<longrightarrow>
         get_or_create_ingredients_run u i ds s = (None, s')) \<and>
      (\<forall>e. matching u n (ingredient_tbl s) = [e] \<longrightarrow>
         get_or_create_ingredients u i [\<lparr>spec_name = n\<rparr>] s =
           Inr (s\<lparr>ingredient_tbl := add (recipe_id i) e (ingredient_tbl s)\<rparr>) \<and>
         (n \<in> names ds \<longrightarrow>
            (\<forall>s'. get_or_create_ingredients u i ds s = Inr s' \<longrightarrow>
               (recipe_id i, ent_id e) \<in> links (ingredient_tbl s')))) \<and>
      (1 < length (matching u n (ingredient_tbl s)) \<and> n \<in> names ds \<longrightarrow>
         get_or_create_ingredients u i ds s = Inl MultipleObjectsReturned)"
    by blast
qed

text \<open>
  On the sample store Indian and the ingredient are found. On the store with Indian
  twice the loop over Dinner and Indian creates Dinner and then raises; the two rows of
  Indian are what they were.
\<close>

theorem get_or_create_existing_witness:
  "matching 1 ''Indian'' (tag_tbl sample_store) = [\<lparr>ent_id = 0, ent_user = 1, ent_name = ''Indian''\<rparr>] \<and>
   get_or_create_tags 1 sample_recipe [\<lparr>spec_name = ''Indian''\<rparr>] sample_store =
     Inr (sample_store\<lparr>tag_tbl :=
       add 0 \<lparr>ent_id = 0, ent_user = 1, ent_name = ''Indian''\<rparr> (tag_tbl sample_store)\<rparr>) \<and>
   1 < length (matching 1 ''Indian'' (tag_tbl twice_store)) \<and>
   get_or_create_tags 1 sample_recipe [\<lparr>spec_name = ''Dinner''\<rparr>, \<lparr>spec_name = ''Indian''\<rparr>]
     twice_store = Inl MultipleObjectsReturned \<and>
   get_or_create_tags_run 1 sample_recipe [\<lparr>spec_name = ''Dinner''\<rparr>, \<lparr>spec_name = ''Indian''\<rparr>]
     twice_store = (Some MultipleObjectsReturned, twice_store_after) \<and>
   matching 1 ''Indian'' (tag_tbl twice_store_after) = matching 1 ''Indian'' (tag_tbl twice_store) \<and>
   matching 1 ''ingredientName'' (ingredient_tbl sample_store) =
     [\<lparr>ent_id = 0, ent_user = 1, ent_name = ''ingredientName''\<rparr>] \<and>
   get_or_create_ingredients 1 sample_recipe [\<lparr>spec_name = ''ingredientName''\<rparr>] sample_store =
     Inr (sample_store\<lparr>ingredient_tbl :=
       add 0 \<lparr>ent_id = 0, ent_user = 1, ent_name = ''ingredientName''\<rparr> (ingredient_tbl sample_store)\<rparr>)"
proof -
  have a: "matching 1 ''Indian'' (tag_tbl sample_store) =
      [\<lparr>ent_id = 0, ent_user = 1, ent_name = ''Indian''\<rparr>]"
    by (simp add: matching_def sample_store_def sample_tags_def)
  have b: "1 < length (matching 1 ''Indian'' (tag_tbl twice_store))"
    by (simp add: matching_def twice_store_def twice_tags_def)
  have c: "matching 1 ''ingredientName'' (ingredient_tbl sample_store) =
     [\<lparr>ent_id = 0, ent_user = 1, ent_name = ''ingredientName''\<rparr>]"
    by (simp add: matching_def sample_store_def sample_ingredients_def)
  have n: "''Indian'' \<in> names [\<lparr>spec_name = ''Dinner''\<rparr>, \<lparr>spec_name = ''Indian''\<rparr>]"
    by (simp add: names_def)
  have id: "recipe_id sample_recipe = 0" by (simp add: sample_recipe_def)
  have a': "matching 1 ''Indian'' (tag_tbl sample_store) \<noteq> []" unfolding a by simp
  have b': "matching 1 ''Indian'' (tag_tbl twice_store) \<noteq> []" using b by auto
  have c': "matching 1 ''ingredientName'' (ingredient_tbl sample_store) \<noteq> []" unfolding c by simp
  note t1 = get_or_create_existing [of 1 "''Indian''" sample_store sample_recipe "[]",
      THEN conjunct1, rule_format, OF a']
  note t2 = get_or_create_existing [of 1 "''Indian''" twice_store sample_recipe
      "[\<lparr>spec_name = ''Dinner''\<rparr>, \<lparr>spec_name = ''Indian''\<rparr>]", THEN conjunct1, rule_format, OF b']
  note t3 = get_or_create_existing [of 1 "''ingredientName''" sample_store sample_recipe "[]",
      THEN conjunct2, rule_format, OF c']
  have r1: "get_or_create_tags 1 sample_recipe [\<lparr>spec_name = ''Indian''\<rparr>] sample_store =
     Inr (sample_store\<lparr>tag_tbl :=
       add 0 \<lparr>ent_id = 0, ent_user = 1, ent_name = ''Indian''\<rparr> (tag_tbl sample_store)\<rparr>)"
    using t1 a id by simp
  have r2: "get_or_create_tags 1 sample_recipe [\<lparr>spec_name = ''Dinner''\<rparr>, \<lparr>spec_name = ''Indian''\<rparr>]
     twice_store = Inl MultipleObjectsReturned"
    using t2 b n by blast
  have r3: "matching 1 ''Indian'' (tag_tbl twice_store_after) = matching 1 ''Indian'' (tag_tbl twice_store)"
    using t2 twice_run by simp
  have r4: "get_or_create_ingredients 1 sample_recipe [\<lparr>spec_name = ''ingredientName''\<rparr>] sample_store =
     Inr (sample_store\<lparr>ingredient_tbl :=
       add 0 \<lparr>ent_id = 0, ent_user = 1, ent_name = ''ingredientName''\<rparr> (ingredient_tbl sample_store)\<rparr>)"
    using t3 c id by simp
  from a b c r1 r2 r3 r4 twice_run show ?thesis by blast
qed

text \<open>
  The claim as it was stated, that the existing row is returned for every name that is
  present, fails on a table in which user 1 has two rows named Indian: the lookup, and
  with it the loop of the serializer, raises.
\<close>

theorem get_or_create_existing_counterexample:
  "matching 1 ''Indian'' twice_tags \<noteq> [] \<and>
   get_or_create 1 ''Indian'' twice_tags = Inl MultipleObjectsReturned \<and>
   get_or_create_tags 1 sample_recipe [\<lparr>spec_name = ''Indian''\<rparr>]
     (sample_store\<lparr>tag_tbl := twice_tags\<rparr>) = Inl MultipleObjectsReturned"
  by (simp add: get_or_create_def matching_def twice_tags_def)

section \<open>Creating a recipe\<close>

text \<open>
  Claim C2. In a store that keeps the integrity of its keys, a recipe created with the
  tag entries \<open>T\<close> carries tags whose names are exactly the names of \<open>T\<close>, each name
  on one tag only however often \<open>T\<close> repeats it, and every one of them owned by the
  requesting user. The creation returns whenever no listed name matches more than one row
  of the user.
\<close>

theorem create_tags_exact:
  "wf_store s \<Longrightarrow>
   (unambiguous u (case cd_tags d of None \<Rightarrow> [] | Some ts \<Rightarrow> ts) (tag_tbl s) \<and>
    unambiguous u (case cd_ingredients d of None \<Rightarrow> [] | Some is \<Rightarrow> is) (ingredient_tbl s) \<longrightarrow>
      (\<exists>r s'. create u d s = Inr (r, s'))) \<and>
   (\<forall>r s' T. create u d s = Inr (r, s') \<and> cd_tags d = Some T \<longrightarrow>
      set (map ent_name (related (recipe_id r) (tag_tbl s'))) = names T \<and>
      distinct (map ent_name (related (recipe_id r) (tag_tbl s'))) \<and>
      (\<forall>e \<in> set (related (recipe_id r) (tag_tbl s')). ent_user e = u))"
proof (rule conjI; intro allI impI)
  assume "unambiguous u (case cd_tags d of None \<Rightarrow> [] | Some ts \<Rightarrow> ts) (tag_tbl s) \<and>
    unambiguous u (case cd_ingredients d of None \<Rightarrow> [] | Some is \<Rightarrow> is) (ingredient_tbl s)"
  then show "\<exists>r s'. create u d s = Inr (r, s')" using create_total by blast
next
  fix r s' T
  assume wf: "wf_store s" and h: "create u d s = Inr (r, s') \<and> cd_tags d = Some T"
  from h obtain ttb where
    l: "link_all u (next_recipe_id s) T (tag_tbl s) = Inr ttb"
    and id: "recipe_id r = next_recipe_id s" and tb: "tag_tbl s' = ttb"
    by (auto elim!: create_Inr)
  have w: "wf_rows ttb" using link_all_wf[OF l] wf by (simp add: wf_store_def)
  have "\<forall>p \<in> links (tag_tbl s). fst p \<noteq> next_recipe_id s"
    using wf by (auto simp: wf_store_def)
  from link_all_fresh[OF l this]
  have rel: "related (next_recipe_id s) ttb =
      filter (\<lambda>e. ent_user e = u \<and> ent_name e \<in> names T) (rows ttb)"
    using related_named[OF w] by simp
  have un: "\<And>n. n \<in> names T \<Longrightarrow> length (matching u n ttb) = 1"
    using link_all_unique[OF l] .
  show "set (map ent_name (related (recipe_id r) (tag_tbl s'))) = names T \<and>
      distinct (map ent_name (related (recipe_id r) (tag_tbl s'))) \<and>
      (\<forall>e \<in> set (related (recipe_id r) (tag_tbl s')). ent_user e = u)"
    unfolding id tb rel using named_names[OF un] named_distinct[OF w un] by simp
qed

text \<open>
  The sample create request lists Thai, Dinner and Thai again: the new recipe carries
  one tag Thai and one tag Dinner.
\<close>

theorem create_tags_exact_witness:
  "wf_store sample_store \<and>
   create 1 sample_create sample_store = Inr (created_recipe, created_store) \<and>
   set (map ent_name (related (recipe_id created_recipe) (tag_tbl created_store))) =
     {''Thai'', ''Dinner''} \<and>
   map ent_name (related (recipe_id created_recipe) (tag_tbl created_store)) =
     [''Thai'', ''Dinner'']"
proof -
  have t: "cd_tags sample_create =
      Some [\<lparr>spec_name = ''Thai''\<rparr>, \<lparr>spec_name = ''Dinner''\<rparr>, \<lparr>spec_name = ''Thai''\<rparr>]"
    by (simp add: sample_create_def)
  have r: "map ent_name (related (recipe_id created_recipe) (tag_tbl created_store)) =
     [''Thai'', ''Dinner'']"
    by (simp add: related_def created_recipe_def created_store_def)
  note p = create_tags_exact [OF sample_store_wf, of 1 sample_create, THEN conjunct2, rule_format,
      OF conjI, OF sample_create_result t]
  from p have "set (map ent_name (related (recipe_id created_recipe) (tag_tbl created_store))) =
     {''Thai'', ''Dinner''}"
    by (simp add: names_def insert_commute)
  with r sample_store_wf sample_create_result show ?thesis by simp
qed

text \<open>
  Claim C9. A create request without the \<^verbatim>\<open>tags\<close> key does what a create request
  with \<^verbatim>\<open>tags: []\<close> does, and the recipe it creates has no tag; the same holds of the
  ingredients.
\<close>

theorem create_absent_is_empty:
  "create u (d\<lparr>cd_tags := None\<rparr>) s = create u (d\<lparr>cd_tags := Some []\<rparr>) s \<and>
   create u (d\<lparr>cd_ingredients := None\<rparr>) s = create u (d\<lparr>cd_ingredients := Some []\<rparr>) s \<and>
   (wf_store s \<longrightarrow>
     (\<forall>r s'. create u d s = Inr (r, s') \<longrightarrow>
        (cd_tags d = None \<or> cd_tags d = Some [] \<longrightarrow>
           related_ids (recipe_id r) (tag_tbl s') = {} \<and> related (recipe_id r) (tag_tbl s') = []) \<and>
        (cd_ingredients d = None \<or> cd_ingredients d = Some [] \<longrightarrow>
           related_ids (recipe_id r) (ingredient_tbl s') = {} \<and>
           related (recipe_id r) (ingredient_tbl s') = [])))"
proof (intro conjI impI allI)
  show "create u (d\<lparr>cd_tags := None\<rparr>) s = create u (d\<lparr>cd_tags := Some []\<rparr>) s"
    by (simp add: create_def objects_create_def)
  show "create u (d\<lparr>cd_ingredients := None\<rparr>) s = create u (d\<lparr>cd_ingredients := Some []\<rparr>) s"
    by (simp add: create_def objects_create_def)
next
  fix r s'
  assume wf: "wf_store s" and h: "create u d s = Inr (r, s')"
  from h obtain ttb itb where
    t: "link_all u (next_recipe_id s) (case cd_tags d of None \<Rightarrow> [] | Some ts \<Rightarrow> ts) (tag_tbl s) = Inr ttb"
    and i: "link_all u (next_recipe_id s) (case cd_ingredients d of None \<Rightarrow> [] | Some is \<Rightarrow> is) (ingredient_tbl s) = Inr itb"
    and id: "recipe_id r = next_recipe_id s"
    and tb: "tag_tbl s' = ttb" "ingredient_tbl s' = itb"
    by (rule create_Inr)
  have ft: "\<forall>p \<in> links (tag_tbl s). fst p \<noteq> next_recipe_id s"
    and fi: "\<forall>p \<in> links (ingredient_tbl s). fst p \<noteq> next_recipe_id s"
    using wf by (auto simp: wf_store_def)
  {
    assume "cd_tags d = None \<or> cd_tags d = Some []"
    then have "ttb = tag_tbl s" using t by auto
    then have "related_ids (next_recipe_id s) ttb = {}"
      using ft by (fastforce simp: related_ids_iff)
    then show "related_ids (recipe_id r) (tag_tbl s') = {}" by (simp add: id tb)
    then show "related (recipe_id r) (tag_tbl s') = []"
      by (auto simp: related_def related_ids_iff filter_empty_conv)
  }
  {
    assume "cd_ingredients d = None \<or> cd_ingredients d = Some []"
    then have "itb = ingredient_tbl s" using i by auto
    then have "related_ids (next_recipe_id s) itb = {}"
      using fi by (fastforce simp: related_ids_iff)
    then show "related_ids (recipe_id r) (ingredient_tbl s') = {}" by (simp add: id tb)
    then show "related (recipe_id r) (ingredient_tbl s') = []"
      by (auto simp: related_def related_ids_iff filter_empty_conv)
  }
qed

text \<open>
  The sample create request has no \<^verbatim>\<open>ingredients\<close> key.
\<close>

theorem create_absent_is_empty_witness:
  "wf_store sample_store \<and>
   cd_ingredients sample_create = None \<and>
   create 1 sample_create sample_store = Inr (created_recipe, created_store) \<and>
   create 1 (sample_create\<lparr>cd_ingredients := Some []\<rparr>) sample_store =
     Inr (created_recipe, created_store) \<and>
   related (recipe_id created_recipe) (ingredient_tbl created_store) = []"
proof -
  note p = create_absent_is_empty [of 1 sample_create sample_store]
  have e: "sample_create\<lparr>cd_ingredients := None\<rparr> = sample_create"
    by (simp add: sample_create_def)
  from p e have a: "create 1 (sample_create\<lparr>cd_ingredients := Some []\<rparr>) sample_store =
     Inr (created_recipe, created_store)"
    using sample_create_result by simp
  from p have "related (recipe_id created_recipe) (ingredient_tbl created_store) = []"
    using sample_store_wf sample_create_result sample_create_no_ingredients by blast
  with a sample_store_wf sample_create_result sample_create_no_ingredients
  show ?thesis by simp
qed

section \<open>Requests by id and listings\<close>

text \<open>
  Claim C4. An entity of any kind that another user owns is reached by its owner, and
  by nobody else: for a user who is not the owner, retrieving it, deleting it and (for a
  recipe) updating it answer \<^verbatim>\<open>NotFound\<close>, which is not \<^verbatim>\<open>Forbidden\<close>, and leave the
  store, and the entity in it, as they were.
\<close>

theorem cross_owner_not_found:
  "wf_store s \<Longrightarrow> x \<in> set (items k s) \<Longrightarrow> item_owner x \<noteq> b \<Longrightarrow>
     retrieve_request k (item_owner x) (item_id x) s = (Inr x, s) \<and>
     retrieve_request k b (item_id x) s = (Inl NotFound, s) \<and>
     delete_request k b (item_id x) s = (Inl NotFound, s) \<and>
     (k = Recipe_kind \<longrightarrow> update_request b (item_id x) pl s = (Inl NotFound, s)) \<and>
     x \<in> set (items k (snd (delete_request k b (item_id x) s)))"
proof -
  assume wf: "wf_store s" and x: "x \<in> set (items k s)" and b: "item_owner x \<noteq> b"
  have g: "get_owned k b (item_id x) s = Inl NotFound"
    using get_owned_found[OF wf x, of b] b by simp
  have o: "get_owned k (item_owner x) (item_id x) s = Inr x"
    using get_owned_found[OF wf x, of "item_owner x"] by simp
  have d: "delete_request k b (item_id x) s = (Inl NotFound, s)"
    by (simp add: delete_request_def g)
  have u: "k = Recipe_kind \<longrightarrow> update_request b (item_id x) pl s = (Inl NotFound, s)"
    using g by (auto simp: update_request_def)
  show ?thesis
    using o g d u x by (simp add: retrieve_request_def)
qed

text \<open>
  User 2 asks for the recipe of user 1.
\<close>

theorem cross_owner_not_found_witness:
  "wf_store sample_store \<and>
   Recipe_item sample_recipe \<in> set (items Recipe_kind sample_store) \<and>
   item_owner (Recipe_item sample_recipe) \<noteq> 2 \<and>
   retrieve_request Recipe_kind 1 0 sample_store = (Inr (Recipe_item sample_recipe), sample_store) \<and>
   retrieve_request Recipe_kind 2 0 sample_store = (Inl NotFound, sample_store) \<and>
   delete_request Recipe_kind 2 0 sample_store = (Inl NotFound, sample_store) \<and>
   update_request 2 0 sample_payload sample_store = (Inl NotFound, sample_store)"
proof -
  have x: "Recipe_item sample_recipe \<in> set (items Recipe_kind sample_store)"
    by (simp add: sample_store_def)
  have o: "item_owner (Recipe_item sample_recipe) \<noteq> 2"
    by (simp add: sample_recipe_def)
  have ru: "recipe_user sample_recipe = 1" and ri: "recipe_id sample_recipe = 0"
    by (simp_all add: sample_recipe_def)
  from cross_owner_not_found [OF sample_store_wf x o, of sample_payload] x o sample_store_wf
  show ?thesis by (simp add: ru ri)
qed

text \<open>
  Claim C6. A listing with \<^verbatim>\<open>assigned_only\<close> holds only rows of the owner that some
  recipe refers to; each such row is in it once, however many recipes refer to it; a row
  that no recipe refers to is not in it.
\<close>

theorem assigned_only_listing:
  "(\<forall>e \<in> set (list_entities owner True tb rs).
      e \<in> set (rows tb) \<and> ent_user e = owner \<and> referenced tb rs e) \<and>
   (\<forall>e \<in> set (rows tb). ent_user e = owner \<and> referenced tb rs e \<longrightarrow>
      count_list (list_entities owner True tb rs) e = 1) \<and>
   (\<forall>e. \<not> referenced tb rs e \<longrightarrow> count_list (list_entities owner True tb rs) e = 0) \<and>
   distinct (list_entities owner True tb rs)"
  by (simp add: count_list_distinct distinct_list_entities set_list_entities)

text \<open>
  Two recipes carry tag1 and none carries tag2: the listing is tag1, once.
\<close>

theorem assigned_only_listing_witness:
  "list_entities 1 True (tag_tbl listing_store) (recipe_rows listing_store) =
     [\<lparr>ent_id = 0, ent_user = 1, ent_name = ''tag1''\<rparr>] \<and>
   referenced (tag_tbl listing_store) (recipe_rows listing_store)
     \<lparr>ent_id = 0, ent_user = 1, ent_name = ''tag1''\<rparr> \<and>
   \<not> referenced (tag_tbl listing_store) (recipe_rows listing_store)
     \<lparr>ent_id = 1, ent_user = 1, ent_name = ''tag2''\<rparr> \<and>
   count_list (list_entities 1 True (tag_tbl listing_store) (recipe_rows listing_store))
     \<lparr>ent_id = 0, ent_user = 1, ent_name = ''tag1''\<rparr> = 1 \<and>
   count_list (list_entities 1 True (tag_tbl listing_store) (recipe_rows listing_store))
     \<lparr>ent_id = 1, ent_user = 1, ent_name = ''tag2''\<rparr> = 0"
proof -
  have l: "list_entities 1 True (tag_tbl listing_store) (recipe_rows listing_store) =
     [\<lparr>ent_id = 0, ent_user = 1, ent_name = ''tag1''\<rparr>]"
    by (simp add: list_entities_def assigned_def listing_store_def sample_recipe_def)
  have r: "referenced (tag_tbl listing_store) (recipe_rows listing_store)
     \<lparr>ent_id = 0, ent_user = 1, ent_name = ''tag1''\<rparr>"
    and n: "\<not> referenced (tag_tbl listing_store) (recipe_rows listing_store)
     \<lparr>ent_id = 1, ent_user = 1, ent_name = ''tag2''\<rparr>"
    by (simp_all add: referenced_def listing_store_def sample_recipe_def)
  have m: "\<lparr>ent_id = 0, ent_user = 1, ent_name = ''tag1''\<rparr> \<in> set (rows (tag_tbl listing_store))"
    by (simp add: listing_store_def)
  note p = assigned_only_listing [of 1 "tag_tbl listing_store" "recipe_rows listing_store"]
  from p m r have "count_list (list_entities 1 True (tag_tbl listing_store) (recipe_rows listing_store))
     \<lparr>ent_id = 0, ent_user = 1, ent_name = ''tag1''\<rparr> = 1"
    by auto
  moreover from p n have "count_list (list_entities 1 True (tag_tbl listing_store) (recipe_rows listing_store))
     \<lparr>ent_id = 1, ent_user = 1, ent_name = ''tag2''\<rparr> = 0"
    by blast
  ultimately show ?thesis using l r n by simp
qed


end
